theory Spec2Isabelle
  imports Complex_Main "HOL-Library.Word"
begin

unbundle bit_operations_syntax

section \<open>Machine types of the driver\<close>

text \<open>
  The driver (\<^verbatim>\<open>SCD30_I2C_lib.h\<close>, \<^verbatim>\<open>SCD30_I2C_lib.cpp\<close>) works on \<^verbatim>\<open>uint8_t\<close>,
  \<^verbatim>\<open>uint16_t\<close>, \<^verbatim>\<open>uint32_t\<close> and \<^verbatim>\<open>float\<close>. The integer types are words of that
  width. A \<^verbatim>\<open>float\<close> is kept as the 32 bits of its IEEE-754 binary32 encoding, which is
  what \<^verbatim>\<open>memcpy\<close> moves between a \<^verbatim>\<open>uint32_t\<close> and a \<^verbatim>\<open>float\<close> in \<^verbatim>\<open>readMeasurement\<close>.
\<close>

type_synonym uint8 = "8 word"
type_synonym uint16 = "16 word"
type_synonym uint32 = "32 word"
type_synonym float32 = "32 word"

subsection \<open>Command codes of the header\<close>

definition SCD30_I2C_ADDRESS :: uint8 where
  "SCD30_I2C_ADDRESS = 0x61"

definition SCD30_START_CONTINUOUS_MEASUREMENT :: uint16 where
  "SCD30_START_CONTINUOUS_MEASUREMENT = 0x0010"

definition SCD30_STOP_CONTINUOUS_MEASUREMENT :: uint16 where
  "SCD30_STOP_CONTINUOUS_MEASUREMENT = 0x0104"

definition SCD30_SET_MEASUREMENT_INTERVAL :: uint16 where
  "SCD30_SET_MEASUREMENT_INTERVAL = 0x4600"

definition SCD30_GET_READY_STATUS :: uint16 where
  "SCD30_GET_READY_STATUS = 0x0202"

definition SCD30_READ_MEASUREMENT :: uint16 where
  "SCD30_READ_MEASUREMENT = 0x0300"

definition SCD30_SET_AUTOMATIC_SELFCALIBRATION :: uint16 where
  "SCD30_SET_AUTOMATIC_SELFCALIBRATION = 0x5306"

definition SCD30_SET_FORCED_RECALIBRATION :: uint16 where
  "SCD30_SET_FORCED_RECALIBRATION = 0x5204"

definition SCD30_SET_TEMPERATURE_OFFSET :: uint16 where
  "SCD30_SET_TEMPERATURE_OFFSET = 0x5403"

definition SCD30_SET_ALTITUDE_COMPENSATION :: uint16 where
  "SCD30_SET_ALTITUDE_COMPENSATION = 0x5102"

definition SCD30_READ_FIRMWARE_VERSION :: uint16 where
  "SCD30_READ_FIRMWARE_VERSION = 0xD100"

definition SCD30_SOFT_RESET :: uint16 where
  "SCD30_SOFT_RESET = 0xD304"

section \<open>The checksum\<close>

text \<open>
  \<^verbatim>\<open>computeCRC8\<close>: the inner loop runs eight times over the register. \<^verbatim>\<open>crc << 1\<close>
  is computed after integer promotion and \<^verbatim>\<open>generator\<close> is a \<^verbatim>\<open>uint16_t\<close>, so the
  shift and the XOR happen in a wider type and the cast cuts the result back to eight
  bits; \<^verbatim>\<open>crc <<= 1\<close> cuts in the same way.
\<close>

definition generator :: uint16 where
  "generator = 0x0031"

definition crc_shift :: "uint8 \<Rightarrow> uint8" where
  "crc_shift crc =
     (if crc AND 0x80 \<noteq> 0
      then ucast (push_bit 1 (ucast crc :: uint16) XOR generator)
      else ucast (push_bit 1 (ucast crc :: uint16)))"

fun crc_bits :: "nat \<Rightarrow> uint8 \<Rightarrow> uint8" where
  "crc_bits 0 crc = crc"
| "crc_bits (Suc i) crc = crc_bits i (crc_shift crc)"

text \<open>
  The outer loop walks \<^verbatim>\<open>x\<close> from 0 up to \<^verbatim>\<open>len\<close>. The array arrives as a pointer;
  reading \<^verbatim>\<open>data[x]\<close> past its end is undefined in C++, which the model reports as
  \<open>None\<close>. The counter is a \<^verbatim>\<open>uint8_t\<close> bounded by \<^verbatim>\<open>len\<close>, so it never wraps.
\<close>

function crc_bytes :: "uint8 list \<Rightarrow> nat \<Rightarrow> nat \<Rightarrow> uint8 \<Rightarrow> uint8 option" where
  "crc_bytes data len x crc =
     (if x < len
      then (if x < length data
            then crc_bytes data len (x + 1) (crc_bits 8 (crc XOR data ! x))
            else None)
      else Some crc)"
  by pat_completeness auto
termination
  by (relation "measure (\<lambda>(data, len, x, crc). len - x)") auto

declare crc_bytes.simps [simp del]

definition computeCRC8 :: "uint8 list \<Rightarrow> uint8 \<Rightarrow> uint8 option" where
  "computeCRC8 data len = crc_bytes data (unat len) 0 0xFF"

text \<open>
  The reference the specification describes, written on natural numbers from its words:
  register initialised to \<open>0xFF\<close>, each byte XOR-ed in, then eight steps that test the
  top bit, shift left by one inside eight bits and XOR with the polynomial \<open>0x31\<close> when
  the top bit was set; no reflection of input or output.
\<close>

definition crc8_reference_step :: "nat \<Rightarrow> nat" where
  "crc8_reference_step r =
     (if 128 \<le> r mod 256 then ((2 * r) mod 256) XOR 49 else (2 * r) mod 256)"

definition crc8_reference_byte :: "nat \<Rightarrow> nat \<Rightarrow> nat" where
  "crc8_reference_byte r b = (crc8_reference_step ^^ 8) (r XOR b)"

definition crc8_reference :: "nat list \<Rightarrow> nat" where
  "crc8_reference bytes = foldl crc8_reference_byte 255 bytes"

section \<open>The bus transport\<close>

text \<open>
  The Arduino \<^verbatim>\<open>Wire\<close> object is the external bus transport of the driver.
\<close>

datatype bus_event =
    BusBegin
  | Transmission uint8 "uint8 list"
  | Request uint8 uint8

record wire =
  txAddress :: uint8
  txBuffer :: "uint8 list"
  rxBuffer :: "uint8 list"
  trace :: "bus_event list"

text \<open>
  The device on the other end of the bus: the status code that ends a transmission and
  the bytes it hands to a read request, each as a function of everything that has
  happened on the bus up to and including that transaction.
\<close>

record device =
  status :: "bus_event list \<Rightarrow> uint8"
  reply :: "bus_event list \<Rightarrow> uint8 list"

text \<open>
  Modelled from the spec: the \<^verbatim>\<open>Wire\<close> library is not part of the repository. Section 6
  asks of the transport: initialise the bus; begin a transaction addressed to a device;
  write a sequence of bytes; end the transaction returning a status code (0 is
  acknowledged); request N bytes from the addressed device and report byte availability;
  read one byte at a time from the received buffer. A read from an empty buffer
  yields \<open>-1\<close>, as the Arduino stream interface does.
\<close>

definition Wire_begin :: "wire \<Rightarrow> wire" where
  "Wire_begin w = w\<lparr>trace := trace w @ [BusBegin]\<rparr>"

definition Wire_beginTransmission :: "uint8 \<Rightarrow> wire \<Rightarrow> wire" where
  "Wire_beginTransmission a w = w\<lparr>txAddress := a, txBuffer := []\<rparr>"

definition Wire_write :: "uint8 \<Rightarrow> wire \<Rightarrow> wire" where
  "Wire_write b w = w\<lparr>txBuffer := txBuffer w @ [b]\<rparr>"

definition Wire_endTransmission :: "device \<Rightarrow> wire \<Rightarrow> uint8 \<times> wire" where
  "Wire_endTransmission dev w =
     (let tr = trace w @ [Transmission (txAddress w) (txBuffer w)]
      in (status dev tr, w\<lparr>txBuffer := [], trace := tr\<rparr>))"

definition Wire_requestFrom :: "device \<Rightarrow> uint8 \<Rightarrow> uint8 \<Rightarrow> wire \<Rightarrow> wire" where
  "Wire_requestFrom dev a n w =
     (let tr = trace w @ [Request a n]
      in w\<lparr>rxBuffer := take (unat n) (reply dev tr), trace := tr\<rparr>)"

definition Wire_available :: "wire \<Rightarrow> int" where
  "Wire_available w = int (length (rxBuffer w))"

definition Wire_read :: "wire \<Rightarrow> int \<times> wire" where
  "Wire_read w =
     (case rxBuffer w of
        [] \<Rightarrow> (- 1, w)
      | b # bs \<Rightarrow> (uint b, w\<lparr>rxBuffer := bs\<rparr>))"

section \<open>Floating-point values\<close>

text \<open>
  The fields of an IEEE-754 binary32 pattern and the real number a finite pattern
  denotes: \<open>(-1)^sign * significand * 2^(scale - 150)\<close>, where a zero exponent field
  marks a subnormal number (no hidden bit, scale 1) and the exponent field 255 marks
  infinities and NaNs.
\<close>

definition float_sign :: "float32 \<Rightarrow> bool" where
  "float_sign f = bit f 31"

definition float_exponent :: "float32 \<Rightarrow> nat" where
  "float_exponent f = unat (drop_bit 23 f AND 0xFF)"

definition float_fraction :: "float32 \<Rightarrow> nat" where
  "float_fraction f = unat (f AND 0x7FFFFF)"

definition float_finite :: "float32 \<Rightarrow> bool" where
  "float_finite f = (float_exponent f \<noteq> 255)"

definition float_significand :: "float32 \<Rightarrow> nat" where
  "float_significand f =
     (if float_exponent f = 0 then float_fraction f else 2 ^ 23 + float_fraction f)"

definition float_scale :: "float32 \<Rightarrow> nat" where
  "float_scale f = (if float_exponent f = 0 then 1 else float_exponent f)"

definition float_value :: "float32 \<Rightarrow> real" where
  "float_value f =
     (if float_sign f then - 1 else 1) *
     (if 150 \<le> float_scale f
      then real (float_significand f * 2 ^ (float_scale f - 150))
      else real (float_significand f) / 2 ^ (150 - float_scale f))"

text \<open>
  The implicit conversion of a \<^verbatim>\<open>float\<close> to \<^verbatim>\<open>uint16_t\<close> in \<^verbatim>\<open>return co2;\<close>: C++
  discards the fractional part (truncation towards zero); the conversion is undefined
  when the truncated value does not fit the destination or the operand is not finite,
  reported as \<open>None\<close>.
\<close>

definition truncate_real :: "real \<Rightarrow> int" where
  "truncate_real x = (if x < 0 then \<lceil>x\<rceil> else \<lfloor>x\<rfloor>)"

definition float_to_uint16 :: "float32 \<Rightarrow> uint16 option" where
  "float_to_uint16 f =
     (if float_finite f
      then (let t = truncate_real (float_value f)
            in if 0 \<le> t \<and> t < 65536 then Some (word_of_int t) else None)
      else None)"

subsection \<open>Arithmetic on floating-point numbers\<close>

text \<open>
  \<^verbatim>\<open>temperature * 1.8 + 32\<close> and \<^verbatim>\<open>temperature + 273.15\<close> are computed in \<^verbatim>\<open>double\<close>:
  the \<^verbatim>\<open>float\<close> operand is converted to \<^verbatim>\<open>double\<close>, the literals are \<^verbatim>\<open>double\<close>
  constants, 32 is converted from \<^verbatim>\<open>int\<close>, and the \<^verbatim>\<open>return\<close> converts the result
  to \<^verbatim>\<open>float\<close>. The width of \<^verbatim>\<open>double\<close> is the target's choice (IEEE-754 binary64 on
  the ARM boards, binary32 on AVR), so the format is a parameter: the number of
  significand bits, and the exponents of the last significand bit of the smallest and
  of the largest finite numbers.
\<close>

record format =
  precision :: nat
  emin :: int
  emax :: int

definition binary32 :: format where
  "binary32 = \<lparr>precision = 24, emin = - 149, emax = 104\<rparr>"

definition binary64 :: format where
  "binary64 = \<lparr>precision = 53, emin = - 1074, emax = 971\<rparr>"

text \<open>
  A number in the middle of a computation: a sign, a significand and the exponent of its
  last bit (the value is \<open>(-1)^sign * significand * 2^exponent\<close>), an infinity, or a
  NaN.
\<close>

datatype fp = Finite bool nat int | Infinity bool | NaN

fun bit_length :: "nat \<Rightarrow> nat" where
  "bit_length n = (if n = 0 then 0 else Suc (bit_length (n div 2)))"

declare bit_length.simps [simp del]

text \<open>
  Rounding to nearest, ties to even, as IEEE-754 arithmetic does by default:
  \<open>round_half_even n d\<close> is the integer nearest to \<open>n / d\<close>. \<open>fp_round\<close> cuts an
  exact result down to the significand width of the format, with gradual underflow at
  the smallest exponent and overflow to infinity.
\<close>

definition round_half_even :: "nat \<Rightarrow> nat \<Rightarrow> nat" where
  "round_half_even n d =
     (let q = n div d; r = n mod d
      in if 2 * r < d then q else if d < 2 * r then q + 1 else if even q then q else q + 1)"

definition fp_round :: "format \<Rightarrow> bool \<Rightarrow> nat \<Rightarrow> int \<Rightarrow> fp" where
  "fp_round fmt s m e =
     (let k = max (int (bit_length m) - int (precision fmt)) (emin fmt - e);
          q = (if k \<le> 0 then m else round_half_even m (2 ^ nat k));
          e' = (if k \<le> 0 then e else e + k)
      in if q \<noteq> 0 \<and> int (precision fmt) + emax fmt < int (bit_length q) + e'
         then Infinity s else Finite s q e')"

text \<open>
  The constant a compiler makes of a decimal literal \<open>n / d\<close> that is at least 1: the
  number of the format nearest to it.
\<close>

definition fp_literal :: "format \<Rightarrow> nat \<Rightarrow> nat \<Rightarrow> fp" where
  "fp_literal fmt n d =
     (let b = bit_length (n div d)
      in Finite False (round_half_even (n * 2 ^ (precision fmt - b)) d)
           (int b - int (precision fmt)))"

text \<open>Conversions into the format, from \<^verbatim>\<open>int\<close> and from \<^verbatim>\<open>float\<close>.\<close>

definition fp_of_int :: "format \<Rightarrow> int \<Rightarrow> fp" where
  "fp_of_int fmt i = fp_round fmt (i < 0) (nat \<bar>i\<bar>) 0"

definition fp_of_float :: "format \<Rightarrow> float32 \<Rightarrow> fp" where
  "fp_of_float fmt f =
     (if float_exponent f = 255
      then (if float_fraction f = 0 then Infinity (float_sign f) else NaN)
      else fp_round fmt (float_sign f) (float_significand f) (int (float_scale f) - 150))"

text \<open>Product and sum: the exact result, rounded once.\<close>

definition fp_mul :: "format \<Rightarrow> fp \<Rightarrow> fp \<Rightarrow> fp" where
  "fp_mul fmt a b =
     (case (a, b) of
        (NaN, _) \<Rightarrow> NaN
      | (_, NaN) \<Rightarrow> NaN
      | (Infinity s1, Infinity s2) \<Rightarrow> Infinity (s1 \<noteq> s2)
      | (Infinity s1, Finite s2 m2 e2) \<Rightarrow> (if m2 = 0 then NaN else Infinity (s1 \<noteq> s2))
      | (Finite s1 m1 e1, Infinity s2) \<Rightarrow> (if m1 = 0 then NaN else Infinity (s1 \<noteq> s2))
      | (Finite s1 m1 e1, Finite s2 m2 e2) \<Rightarrow> fp_round fmt (s1 \<noteq> s2) (m1 * m2) (e1 + e2))"

definition fp_add :: "format \<Rightarrow> fp \<Rightarrow> fp \<Rightarrow> fp" where
  "fp_add fmt a b =
     (case (a, b) of
        (NaN, _) \<Rightarrow> NaN
      | (_, NaN) \<Rightarrow> NaN
      | (Infinity s1, Infinity s2) \<Rightarrow> (if s1 = s2 then Infinity s1 else NaN)
      | (Infinity s1, Finite s2 m2 e2) \<Rightarrow> Infinity s1
      | (Finite s1 m1 e1, Infinity s2) \<Rightarrow> Infinity s2
      | (Finite s1 m1 e1, Finite s2 m2 e2) \<Rightarrow>
          (let e = min e1 e2;
               t = (if s1 then - 1 else 1) * int m1 * 2 ^ nat (e1 - e) +
                   (if s2 then - 1 else 1) * int m2 * 2 ^ nat (e2 - e)
           in if t = 0 then Finite (s1 \<and> s2) 0 e
              else fp_round fmt (t < 0) (nat \<bar>t\<bar>) e))"

text \<open>
  The conversion to \<^verbatim>\<open>float\<close>: rounding to 24 significand bits and packing sign,
  exponent field and fraction into 32 bits. A NaN comes out as the default quiet NaN;
  targets that carry the payload of a NaN operand through differ there in the low bits.
\<close>

definition float32_bits :: "bool \<Rightarrow> nat \<Rightarrow> nat \<Rightarrow> float32" where
  "float32_bits s ex fr = word_of_nat ((if s then 2 ^ 31 else 0) + ex * 2 ^ 23 + fr)"

definition encode_float32 :: "bool \<Rightarrow> nat \<Rightarrow> int \<Rightarrow> float32" where
  "encode_float32 s q e =
     (let b = int (bit_length q)
      in if q = 0 then float32_bits s 0 0
         else if e + b - 1 < - 126 then float32_bits s 0 (q * 2 ^ nat (e + 149))
         else float32_bits s (nat (e + b + 126))
                ((if 24 \<le> b then q div 2 ^ nat (b - 24) else q * 2 ^ nat (24 - b)) - 2 ^ 23))"

definition fp_to_float :: "fp \<Rightarrow> float32" where
  "fp_to_float x =
     (case x of
        NaN \<Rightarrow> 0x7FC00000
      | Infinity s \<Rightarrow> float32_bits s 255 0
      | Finite s m e \<Rightarrow>
          (case fp_round binary32 s m e of
             NaN \<Rightarrow> 0x7FC00000
           | Infinity s' \<Rightarrow> float32_bits s' 255 0
           | Finite s' q e' \<Rightarrow> encode_float32 s' q e'))"

text \<open>The two expressions of the accessors, on the bits of the cached \<^verbatim>\<open>float\<close>.\<close>

definition to_fahrenheit :: "format \<Rightarrow> float32 \<Rightarrow> float32" where
  "to_fahrenheit fmt t =
     fp_to_float (fp_add fmt (fp_mul fmt (fp_of_float fmt t) (fp_literal fmt 18 10)) (fp_of_int fmt 32))"

definition to_kelvin :: "format \<Rightarrow> float32 \<Rightarrow> float32" where
  "to_kelvin fmt t =
     fp_to_float (fp_add fmt (fp_of_float fmt t) (fp_literal fmt 27315 100))"


text \<open>
  For stating results: powers of two with integer exponent, the real value of a number
  of the format, and the formats wide enough to hold every \<^verbatim>\<open>float\<close>.
\<close>

definition pow2 :: "int \<Rightarrow> real" where
  "pow2 e = (if 0 \<le> e then 2 ^ nat e else 1 / 2 ^ nat (- e))"

fun fp_value :: "fp \<Rightarrow> real" where
  "fp_value (Finite s m e) = (if s then - 1 else 1) * (real m * pow2 e)"
| "fp_value (Infinity s) = 0"
| "fp_value NaN = 0"

fun fp_finite :: "fp \<Rightarrow> bool" where
  "fp_finite (Finite s m e) = True"
| "fp_finite (Infinity s) = False"
| "fp_finite NaN = False"

definition holds_float :: "format \<Rightarrow> bool" where
  "holds_float fmt =
     (24 \<le> precision fmt \<and> emin fmt \<le> - 149 \<and> 128 \<le> int (precision fmt) + emax fmt)"

section \<open>The driver\<close>

text \<open>
  The private fields of class \<^verbatim>\<open>SCD30\<close> that hold the measurement, each initialised to
  0 in the header, together with the global \<^verbatim>\<open>Wire\<close> object. The pointer
  \<^verbatim>\<open>firmwareVersion\<close> is used by \<^verbatim>\<open>getFirmwareVersion\<close> alone and is left out with it,
  as are \<^verbatim>\<open>setTemperatureOffset\<close>, the self-calibration and altitude commands, the
  configuration getters, \<^verbatim>\<open>softReset\<close> and \<^verbatim>\<open>attachExternalInterrupt\<close>: none of them
  touches the measurement fields, and the results below do not call them.
\<close>

record system =
  co2 :: float32
  temperature :: float32
  humidity :: float32
  Wire :: wire

definition initial_system :: system where
  "initial_system =
     \<lparr>co2 = 0, temperature = 0, humidity = 0,
      Wire = \<lparr>txAddress = 0, txBuffer = [], rxBuffer = [], trace = []\<rparr>\<rparr>"

subsection \<open>Sending commands\<close>

text \<open>\<^verbatim>\<open>sendCommand(uint16_t command)\<close>\<close>

definition sendCommand :: "device \<Rightarrow> uint16 \<Rightarrow> system \<Rightarrow> bool \<times> system" where
  "sendCommand dev command s =
     (let w1 = Wire_beginTransmission SCD30_I2C_ADDRESS (Wire s);
          w2 = Wire_write (ucast (drop_bit 8 command)) w1;
          w3 = Wire_write (ucast (command AND 0x00FF)) w2;
          (st, w4) = Wire_endTransmission dev w3
      in if st \<noteq> 0 then (False, s\<lparr>Wire := w4\<rparr>) else (True, s\<lparr>Wire := w4\<rparr>))"

text \<open>
  \<^verbatim>\<open>sendCommand(uint16_t command, uint16_t argument)\<close>. The local array \<^verbatim>\<open>data\<close> has
  two elements and the checksum runs over two, so the read stays inside the array.
\<close>

definition sendCommand_arg :: "device \<Rightarrow> uint16 \<Rightarrow> uint16 \<Rightarrow> system \<Rightarrow> bool \<times> system" where
  "sendCommand_arg dev command argument s =
     (let data = [ucast (drop_bit 8 argument), ucast (argument AND 0x00FF)];
          crc = the (computeCRC8 data 2);
          w1 = Wire_beginTransmission SCD30_I2C_ADDRESS (Wire s);
          w2 = Wire_write (ucast (drop_bit 8 command)) w1;
          w3 = Wire_write (ucast (command AND 0x00FF)) w2;
          w4 = Wire_write (ucast (drop_bit 8 argument)) w3;
          w5 = Wire_write (ucast (argument AND 0x00FF)) w4;
          w6 = Wire_write crc w5;
          (st, w7) = Wire_endTransmission dev w6
      in if st \<noteq> 0 then (False, s\<lparr>Wire := w7\<rparr>) else (True, s\<lparr>Wire := w7\<rparr>))"

subsection \<open>Reading a register\<close>

definition readRegister :: "device \<Rightarrow> uint16 \<Rightarrow> system \<Rightarrow> uint16 \<times> system" where
  "readRegister dev registerAddress s =
     (let w1 = Wire_beginTransmission SCD30_I2C_ADDRESS (Wire s);
          w2 = Wire_write (ucast (drop_bit 8 registerAddress)) w1;
          w3 = Wire_write (ucast (registerAddress AND 0x00FF)) w2;
          (st, w4) = Wire_endTransmission dev w3
      in if st \<noteq> 0 then (0, s\<lparr>Wire := w4\<rparr>)
         else
           (let w5 = Wire_requestFrom dev SCD30_I2C_ADDRESS 2 w4
            in if Wire_available w5 \<noteq> 0
               then (let (r1, w6) = Wire_read w5;
                         MSB = (word_of_int r1 :: uint8);
                         (r2, w7) = Wire_read w6;
                         LSB = (word_of_int r2 :: uint8);
                         response = (push_bit 8 (ucast MSB) :: uint16);
                         response = response OR ucast LSB
                     in (response, s\<lparr>Wire := w7\<rparr>))
               else (0, s\<lparr>Wire := w5\<rparr>)))"

subsection \<open>Measuring and configuration\<close>

definition beginMeasuring_offset :: "device \<Rightarrow> uint16 \<Rightarrow> system \<Rightarrow> bool \<times> system" where
  "beginMeasuring_offset dev ambientPressureOffset s =
     sendCommand_arg dev SCD30_START_CONTINUOUS_MEASUREMENT ambientPressureOffset s"

definition beginMeasuring :: "device \<Rightarrow> system \<Rightarrow> bool \<times> system" where
  "beginMeasuring dev s = beginMeasuring_offset dev 0 s"

definition stopMeasuring :: "device \<Rightarrow> system \<Rightarrow> bool \<times> system" where
  "stopMeasuring dev s = sendCommand dev SCD30_STOP_CONTINUOUS_MEASUREMENT s"

definition dataAvailable :: "device \<Rightarrow> system \<Rightarrow> bool \<times> system" where
  "dataAvailable dev s =
     (let (response, s1) = readRegister dev SCD30_GET_READY_STATUS s
      in if response = 1 then (True, s1) else (False, s1))"

definition setForcedRecalibrationValue :: "device \<Rightarrow> uint16 \<Rightarrow> system \<Rightarrow> system" where
  "setForcedRecalibrationValue dev concentration s =
     (if concentration < 400 \<or> concentration > 2000 then s
      else snd (sendCommand_arg dev SCD30_SET_FORCED_RECALIBRATION concentration s))"

definition setMeasurementInterval :: "device \<Rightarrow> uint16 \<Rightarrow> system \<Rightarrow> system" where
  "setMeasurementInterval dev interval s =
     snd (sendCommand_arg dev SCD30_SET_MEASUREMENT_INTERVAL interval s)"

definition setAmbientPressure :: "device \<Rightarrow> uint16 \<Rightarrow> system \<Rightarrow> system" where
  "setAmbientPressure dev ambientPressure s =
     (let ambientPressure =
            (if ambientPressure < 700 \<or> ambientPressure > 1200 then 0 else ambientPressure)
      in snd (sendCommand_arg dev SCD30_START_CONTINUOUS_MEASUREMENT ambientPressure s))"

text \<open>\<^verbatim>\<open>begin()\<close>\<close>

definition begin_scd30 :: "device \<Rightarrow> system \<Rightarrow> bool \<times> system" where
  "begin_scd30 dev s =
     (let s0 = s\<lparr>Wire := Wire_begin (Wire s)\<rparr>;
          (ok, s1) = beginMeasuring dev s0
      in if ok = True then (True, setMeasurementInterval dev 2 s1) else (False, s1))"

subsection \<open>Reading a measurement\<close>

text \<open>
  The \<^verbatim>\<open>for\<close> loop of \<^verbatim>\<open>readMeasurement\<close> with its \<^verbatim>\<open>switch\<close> on the position \<^verbatim>\<open>b\<close>.
  \<^verbatim>\<open>Wire.read()\<close> returns an \<^verbatim>\<open>int\<close> that the assignment to \<^verbatim>\<open>incoming\<close> cuts to eight
  bits.
\<close>

function read_frame ::
  "nat \<Rightarrow> uint32 \<Rightarrow> uint32 \<Rightarrow> uint32 \<Rightarrow> wire \<Rightarrow> uint32 \<times> uint32 \<times> uint32 \<times> wire" where
  "read_frame b tempCO2 tempHumidity tempTemperature w =
     (if b < 18
      then (let (r, w1) = Wire_read w;
                incoming = (word_of_int r :: uint8)
            in if b = 0 \<or> b = 1 \<or> b = 3 \<or> b = 4
               then read_frame (b + 1) (push_bit 8 tempCO2 OR ucast incoming)
                      tempHumidity tempTemperature w1
               else if b = 6 \<or> b = 7 \<or> b = 9 \<or> b = 10
               then read_frame (b + 1) tempCO2 tempHumidity
                      (push_bit 8 tempTemperature OR ucast incoming) w1
               else if b = 12 \<or> b = 13 \<or> b = 15 \<or> b = 16
               then read_frame (b + 1) tempCO2
                      (push_bit 8 tempHumidity OR ucast incoming) tempTemperature w1
               else read_frame (b + 1) tempCO2 tempHumidity tempTemperature w1)
      else (tempCO2, tempHumidity, tempTemperature, w))"
  by pat_completeness auto
termination
  by (relation "measure (\<lambda>(b, c, h, t, w). 18 - b)") auto

declare read_frame.simps [simp del]

text \<open>
  The three \<^verbatim>\<open>memcpy\<close> calls after the \<^verbatim>\<open>if\<close> copy the four bytes of each temporary
  into the \<^verbatim>\<open>float\<close> fields; integer and \<^verbatim>\<open>float\<close> share the byte order of the target.
\<close>

definition readMeasurement :: "device \<Rightarrow> system \<Rightarrow> bool \<times> system" where
  "readMeasurement dev s =
     (let w1 = Wire_beginTransmission SCD30_I2C_ADDRESS (Wire s);
          w2 = Wire_write (ucast (drop_bit 8 SCD30_READ_MEASUREMENT)) w1;
          w3 = Wire_write (ucast (SCD30_READ_MEASUREMENT AND 0x00FF)) w2;
          (st, w4) = Wire_endTransmission dev w3
      in if st \<noteq> 0 then (False, s\<lparr>Wire := w4\<rparr>)
         else
           (let w5 = Wire_requestFrom dev SCD30_I2C_ADDRESS 18 w4;
                (tempCO2, tempHumidity, tempTemperature, w6) =
                   (if Wire_available w5 \<noteq> 0 then read_frame 0 0 0 0 w5 else (0, 0, 0, w5))
            in (True, s\<lparr>co2 := tempCO2, temperature := tempTemperature,
                        humidity := tempHumidity, Wire := w6\<rparr>)))"

subsection \<open>The accessors\<close>

text \<open>
  Each accessor starts with the same two lines: ask \<^verbatim>\<open>dataAvailable()\<close> and call
  \<^verbatim>\<open>readMeasurement()\<close>, whose result is dropped, when it says true.
\<close>

definition getHumidity :: "device \<Rightarrow> system \<Rightarrow> float32 \<times> system" where
  "getHumidity dev s =
     (let (avail, s1) = dataAvailable dev s;
          s2 = (if avail = True then snd (readMeasurement dev s1) else s1)
      in (humidity s2, s2))"

definition getTemperatureC :: "device \<Rightarrow> system \<Rightarrow> float32 \<times> system" where
  "getTemperatureC dev s =
     (let (avail, s1) = dataAvailable dev s;
          s2 = (if avail = True then snd (readMeasurement dev s1) else s1)
      in (temperature s2, s2))"

definition getTemperatureF :: "format \<Rightarrow> device \<Rightarrow> system \<Rightarrow> float32 \<times> system" where
  "getTemperatureF fmt dev s =
     (let (avail, s1) = dataAvailable dev s;
          s2 = (if avail = True then snd (readMeasurement dev s1) else s1)
      in (fp_to_float
            (fp_add fmt (fp_mul fmt (fp_of_float fmt (temperature s2)) (fp_literal fmt 18 10))
               (fp_of_int fmt 32)),
          s2))"

definition getTemperatureK :: "format \<Rightarrow> device \<Rightarrow> system \<Rightarrow> float32 \<times> system" where
  "getTemperatureK fmt dev s =
     (let (avail, s1) = dataAvailable dev s;
          s2 = (if avail = True then snd (readMeasurement dev s1) else s1)
      in (fp_to_float (fp_add fmt (fp_of_float fmt (temperature s2)) (fp_literal fmt 27315 100)),
          s2))"

definition getCO2 :: "device \<Rightarrow> system \<Rightarrow> uint16 option \<times> system" where
  "getCO2 dev s =
     (let (avail, s1) = dataAvailable dev s;
          s2 = (if avail = True then snd (readMeasurement dev s1) else s1)
      in (float_to_uint16 (co2 s2), s2))"

section \<open>Devices and states for concrete runs\<close>

text \<open>
  Two devices: one acknowledges every transmission and never supplies a byte, the other
  acknowledges nothing (status 2, address not acknowledged).
\<close>

definition silent_device :: device where
  "silent_device = \<lparr>status = (\<lambda>tr. 0), reply = (\<lambda>tr. [])\<rparr>"

definition absent_device :: device where
  "absent_device = \<lparr>status = (\<lambda>tr. 2), reply = (\<lambda>tr. [])\<rparr>"

text \<open>
  A device whose registers read zero, a device that reports firmware version 3.66, and a
  device that reports data ready and supplies a measurement frame of 450.0 ppm, -10.0
  degrees and 50.0 percent, with the checksum after every two bytes.
\<close>

definition register_device :: device where
  "register_device =
     \<lparr>status = (\<lambda>tr. 0),
      reply = (\<lambda>tr. case rev tr of
                 Request a n # past \<Rightarrow> if n = 2 then [0x00, 0x00, 0x81] else []
               | _ \<Rightarrow> [])\<rparr>"

definition firmware_device :: device where
  "firmware_device =
     \<lparr>status = (\<lambda>tr. 0),
      reply = (\<lambda>tr. case rev tr of
                 Request a n # past \<Rightarrow> if n = 2 then [0x03, 0x42, 0xF3] else []
               | _ \<Rightarrow> [])\<rparr>"

definition measuring_device :: device where
  "measuring_device =
     \<lparr>status = (\<lambda>tr. 0),
      reply = (\<lambda>tr. case rev tr of
                 Request a n # past \<Rightarrow>
                   if n = 2 then [0x00, 0x01, 0xB0]
                   else [0x43, 0xE1, 0xD5, 0x00, 0x00, 0x81,
                         0xC1, 0x20, 0x59, 0x00, 0x00, 0x81,
                         0x42, 0x48, 0x55, 0x00, 0x00, 0x81]
               | _ \<Rightarrow> [])\<rparr>"

text \<open>
  A device that reports data ready and then supplies no byte to the request for the
  measurement.
\<close>

definition starved_device :: device where
  "starved_device =
     \<lparr>status = (\<lambda>tr. 0),
      reply = (\<lambda>tr. case rev tr of
                 Request a n # past \<Rightarrow> if n = 2 then [0x00, 0x01, 0xB0] else []
               | _ \<Rightarrow> [])\<rparr>"

text \<open>A state whose cache holds 450.5 ppm, -10.0 degrees and 50.0 percent.\<close>

definition cached_system :: system where
  "cached_system = initial_system\<lparr>co2 := 0x43E14000, temperature := 0xC1200000, humidity := 0x42480000\<rparr>"

section \<open>The checksum against its reference\<close>

lemma odd_div_128: "n < 256 \<Longrightarrow> odd (n div 128) = (128 \<le> n)" for n :: nat
proof (cases "128 \<le> n")
  case True
  assume "n < 256"
  with True have "n div 128 = 1" by simp
  with True show ?thesis by simp
next
  case False
  then have "n div 128 = 0" by simp
  with False show ?thesis by simp
qed

lemma unat_uint8_less: "unat c < 256" for c :: uint8
  using unsigned_less [of c, where 'a = nat] by simp

lemma top_bit: "(c AND 0x80 \<noteq> 0) = (128 \<le> unat c)" for c :: uint8
proof -
  have "(0x80 :: uint8) = 2 ^ 7" by simp
  then have "(c AND 0x80 \<noteq> 0) = bit c 7"
    by (simp only: and_exp_eq_0_iff_not_bit) simp
  moreover have "bit c 7 = bit (unat c) 7"
    by (simp add: bit_unsigned_iff)
  moreover have "bit (unat c) 7 = odd (unat c div 2 ^ 7)"
    by (rule bit_iff_odd)
  moreover have "odd (unat c div 2 ^ 7) = (128 \<le> unat c)"
    using odd_div_128 [OF unat_uint8_less [of c]] by simp
  ultimately show ?thesis by simp
qed

lemma shift_cut: "(ucast (push_bit n (ucast c :: uint16)) :: uint8) = push_bit n c" for c :: uint8
  by (rule bit_word_eqI) (auto simp add: bit_simps)

lemma unat_shift: "unat (push_bit 1 c) = (2 * unat c) mod 256" for c :: uint8
  by (simp add: unat_word_ariths mult.commute)

lemma unat_crc_shift: "unat (crc_shift c) = crc8_reference_step (unat c)"
proof -
  have g: "(ucast generator :: uint8) = 0x31" by (simp add: generator_def)
  have x: "(ucast (push_bit 1 (ucast c :: uint16) XOR generator) :: uint8) = push_bit 1 c XOR 0x31"
    by (simp only: unsigned_xor_eq shift_cut g)
  have y: "unat (push_bit 1 c XOR 0x31) = ((2 * unat c) mod 256) XOR 49"
    by (simp only: unsigned_xor_eq unat_shift) simp
  have m: "unat c mod 256 = unat c"
    using unat_uint8_less [of c] by simp
  show ?thesis
  proof (cases "128 \<le> unat c")
    case True
    then show ?thesis
      by (simp only: crc_shift_def crc8_reference_step_def top_bit x y m if_True)
  next
    case False
    then show ?thesis
      by (simp only: crc_shift_def crc8_reference_step_def top_bit shift_cut unat_shift m if_False)
  qed
qed

lemma unat_crc_bits: "unat (crc_bits n c) = (crc8_reference_step ^^ n) (unat c)"
  by (induction n arbitrary: c) (simp_all add: unat_crc_shift funpow_swap1)

lemma unat_crc_byte: "unat (crc_bits 8 (crc XOR b)) = crc8_reference_byte (unat crc) (unat b)"
  by (simp only: unat_crc_bits crc8_reference_byte_def unsigned_xor_eq)

lemma crc_bytes_reference:
  "x \<le> len \<Longrightarrow> len \<le> length data \<Longrightarrow>
   crc_bytes data len x crc =
     Some (of_nat (foldl crc8_reference_byte (unat crc) (map unat (take (len - x) (drop x data)))))"
proof (induction data len x crc rule: crc_bytes.induct)
  case (1 data len x crc)
  show ?case
  proof (cases "x < len")
    case True
    then have inr: "x < length data" using "1.prems" by simp
    have ih: "crc_bytes data len (x + 1) (crc_bits 8 (crc XOR data ! x)) =
        Some (of_nat (foldl crc8_reference_byte (unat (crc_bits 8 (crc XOR data ! x)))
           (map unat (take (len - (x + 1)) (drop (x + 1) data)))))"
      using "1.IH" [OF True inr] True "1.prems" by simp
    have sp: "take (len - x) (drop x data) = data ! x # take (len - (x + 1)) (drop (x + 1) data)"
      using True inr
      by (metis Cons_nth_drop_Suc Suc_diff_Suc Suc_eq_plus1 take_Suc_Cons)
    show ?thesis
      using ih by (subst crc_bytes.simps) (simp add: True inr sp unat_crc_byte)
  next
    case False
    then show ?thesis using "1.prems"
      by (subst crc_bytes.simps) simp
  qed
qed

lemma crc_bytes_out_of_range:
  "x \<le> len \<Longrightarrow> length data < len \<Longrightarrow> x \<le> length data \<Longrightarrow> crc_bytes data len x crc = None"
proof (induction data len x crc rule: crc_bytes.induct)
  case (1 data len x crc)
  show ?case
  proof (cases "x < length data")
    case True
    then show ?thesis using "1.prems" "1.IH"
      by (subst crc_bytes.simps) simp
  next
    case False
    then show ?thesis using "1.prems"
      by (subst crc_bytes.simps) simp
  qed
qed


lemma computeCRC8_two: "computeCRC8 [a, b] 2 = Some (crc_bits 8 (crc_bits 8 (0xFF XOR a) XOR b))"
  by (simp add: computeCRC8_def crc_bytes.simps)

text \<open>
  C7. \<^verbatim>\<open>computeCRC8\<close> has no state and touches none: its value is a function of the
  bytes and the length alone. Whenever the length stays inside the array, that value is
  the bit-at-a-time CRC-8 of the specification (initial register \<open>0xFF\<close>, polynomial
  \<open>0x31\<close>, no reflection, each byte XOR-ed in, top bit tested before each shift) over the
  first \<^verbatim>\<open>len\<close> bytes; a length beyond the array reads outside it. The two bytes
  \<open>0xBE 0xEF\<close> of the device documentation give \<open>0x92\<close>, the argument 0 gives
  \<open>0x81\<close>, and the argument 1000 (\<open>0x03 0xE8\<close>) gives \<open>0xD4\<close>.
\<close>

theorem computeCRC8_refines_reference:
  "computeCRC8 data len =
     (if unat len \<le> length data
      then Some (word_of_nat (crc8_reference (map unat (take (unat len) data))))
      else None)
   \<and> computeCRC8 [0xBE, 0xEF] 2 = Some 0x92
   \<and> computeCRC8 [0x00, 0x00] 2 = Some 0x81
   \<and> computeCRC8 [0x03, 0xE8] 2 = Some 0xD4"
proof -
  have general: "computeCRC8 data len =
     (if unat len \<le> length data
      then Some (word_of_nat (crc8_reference (map unat (take (unat len) data))))
      else None)"
  proof (cases "unat len \<le> length data")
    case True
    then show ?thesis
      using crc_bytes_reference [of 0 "unat len" data "0xFF"]
      by (simp add: computeCRC8_def crc8_reference_def)
  next
    case False
    then show ?thesis
      using crc_bytes_out_of_range [of 0 "unat len" data "0xFF"]
      by (simp add: computeCRC8_def)
  qed
  have v1: "computeCRC8 [0xBE, 0xEF] 2 = Some 0x92" by code_simp
  have v2: "computeCRC8 [0x00, 0x00] 2 = Some 0x81" by code_simp
  have v3: "computeCRC8 [0x03, 0xE8] 2 = Some 0xD4" by code_simp
  from general v1 v2 v3 show ?thesis by blast
qed

theorem computeCRC8_refines_reference_witness:
  "computeCRC8 [0x01, 0xC2, 0x07] 2 = Some (word_of_nat (crc8_reference [1, 194]))
   \<and> computeCRC8 [0x01] 2 = None"
  using computeCRC8_refines_reference [of "[0x01, 0xC2, 0x07]" 2]
        computeCRC8_refines_reference [of "[0x01]" 2]
  by simp

section \<open>Commands on the bus\<close>

lemma transmit_two:
  "Wire_endTransmission dev (Wire_write b2 (Wire_write b1 (Wire_beginTransmission a w))) =
     (status dev (trace w @ [Transmission a [b1, b2]]),
      w\<lparr>txAddress := a, txBuffer := [], trace := trace w @ [Transmission a [b1, b2]]\<rparr>)"
  by (simp add: Wire_endTransmission_def Wire_write_def Wire_beginTransmission_def Let_def)

lemma transmit_five:
  "Wire_endTransmission dev
     (Wire_write b5 (Wire_write b4 (Wire_write b3 (Wire_write b2 (Wire_write b1
        (Wire_beginTransmission a w)))))) =
     (status dev (trace w @ [Transmission a [b1, b2, b3, b4, b5]]),
      w\<lparr>txAddress := a, txBuffer := [],
        trace := trace w @ [Transmission a [b1, b2, b3, b4, b5]]\<rparr>)"
  by (simp add: Wire_endTransmission_def Wire_write_def Wire_beginTransmission_def Let_def)

lemma sendCommand_arg_trace:
  "trace (Wire (snd (sendCommand_arg dev command argument s))) =
     trace (Wire s) @
       [Transmission SCD30_I2C_ADDRESS
          [ucast (drop_bit 8 command), ucast (command AND 0xFF),
           ucast (drop_bit 8 argument), ucast (argument AND 0xFF),
           the (computeCRC8 [ucast (drop_bit 8 argument), ucast (argument AND 0xFF)] 2)]]"
  by (simp add: sendCommand_arg_def transmit_five Let_def)

lemma sendCommand_arg_result:
  "fst (sendCommand_arg dev command argument s) =
     (status dev (trace (Wire s) @
       [Transmission SCD30_I2C_ADDRESS
          [ucast (drop_bit 8 command), ucast (command AND 0xFF),
           ucast (drop_bit 8 argument), ucast (argument AND 0xFF),
           the (computeCRC8 [ucast (drop_bit 8 argument), ucast (argument AND 0xFF)] 2)]]) = 0)"
  by (simp add: sendCommand_arg_def transmit_five Let_def)

lemma sendCommand_arg_cache:
  "co2 (snd (sendCommand_arg dev command argument s)) = co2 s \<and>
   temperature (snd (sendCommand_arg dev command argument s)) = temperature s \<and>
   humidity (snd (sendCommand_arg dev command argument s)) = humidity s"
  by (simp add: sendCommand_arg_def transmit_five Let_def)

text \<open>
  C4. \<^verbatim>\<open>setForcedRecalibrationValue\<close> puts a transaction on the bus exactly when the
  concentration lies in 400..2000, bounds included. Outside that range it returns with
  nothing changed, the bus history included. Inside, it adds one transmission to the
  sensor: the set-forced-recalibration code \<open>0x5204\<close>, the two bytes of the argument,
  most significant first, and the checksum \<^verbatim>\<open>computeCRC8\<close> gives for those two bytes.
\<close>

theorem setForcedRecalibrationValue_range:
  "(if 400 \<le> concentration \<and> concentration \<le> 2000
    then \<exists>crc. computeCRC8 [ucast (drop_bit 8 concentration), ucast (concentration AND 0xFF)] 2 = Some crc \<and>
           trace (Wire (setForcedRecalibrationValue dev concentration s)) =
             trace (Wire s) @
               [Transmission SCD30_I2C_ADDRESS
                  [0x52, 0x04, ucast (drop_bit 8 concentration), ucast (concentration AND 0xFF), crc]]
    else setForcedRecalibrationValue dev concentration s = s)
   \<and> ((trace (Wire (setForcedRecalibrationValue dev concentration s)) \<noteq> trace (Wire s)) =
        (400 \<le> concentration \<and> concentration \<le> 2000))"
  by (simp add: setForcedRecalibrationValue_def sendCommand_arg_trace computeCRC8_two
        SCD30_SET_FORCED_RECALIBRATION_def not_less not_le)


theorem setForcedRecalibrationValue_range_witness:
  "setForcedRecalibrationValue silent_device 399 initial_system = initial_system
   \<and> setForcedRecalibrationValue silent_device 2001 initial_system = initial_system
   \<and> trace (Wire (setForcedRecalibrationValue silent_device 1500 initial_system)) =
        [Transmission 0x61 [0x52, 0x04, 0x05, 0xDC, 0x8F]]"
proof -
  have crc: "computeCRC8 [0x05, 0xDC] 2 = Some 0x8F" by code_simp
  show ?thesis
    using setForcedRecalibrationValue_range [of 399 silent_device initial_system]
          setForcedRecalibrationValue_range [of 2001 silent_device initial_system]
          setForcedRecalibrationValue_range [of 1500 silent_device initial_system]
    by (simp add: crc initial_system_def SCD30_I2C_ADDRESS_def)
qed

text \<open>
  C5. \<^verbatim>\<open>setAmbientPressure\<close> always adds one transmission with the
  start-continuous-measurement code \<open>0x0010\<close>. The argument on the wire is the pressure
  when it lies in 700..1200, bounds included, and 0 otherwise, followed by the checksum
  of the two argument bytes.
\<close>

theorem setAmbientPressure_coerces:
  "\<exists>crc. computeCRC8
            [ucast (drop_bit 8 (if 700 \<le> p \<and> p \<le> 1200 then p else 0)),
             ucast ((if 700 \<le> p \<and> p \<le> 1200 then p else 0) AND 0xFF)] 2 = Some crc \<and>
     trace (Wire (setAmbientPressure dev p s)) =
       trace (Wire s) @
         [Transmission SCD30_I2C_ADDRESS
            [0x00, 0x10,
             ucast (drop_bit 8 (if 700 \<le> p \<and> p \<le> 1200 then p else 0)),
             ucast ((if 700 \<le> p \<and> p \<le> 1200 then p else 0) AND 0xFF), crc]]"
proof (cases "700 \<le> p \<and> p \<le> 1200")
  case True
  then have "\<not> (p < 700 \<or> p > 1200)" by (simp add: not_less)
  with True show ?thesis
    by (simp add: setAmbientPressure_def sendCommand_arg_trace computeCRC8_two
          SCD30_START_CONTINUOUS_MEASUREMENT_def Let_def)
next
  case False
  then have "p < 700 \<or> p > 1200" by (auto simp add: not_le)
  with False show ?thesis
    by (auto simp add: setAmbientPressure_def sendCommand_arg_trace computeCRC8_two
          SCD30_START_CONTINUOUS_MEASUREMENT_def Let_def)
qed

theorem setAmbientPressure_coerces_witness:
  "trace (Wire (setAmbientPressure silent_device 600 initial_system)) =
     [Transmission 0x61 [0x00, 0x10, 0x00, 0x00, 0x81]]
   \<and> trace (Wire (setAmbientPressure silent_device 1300 initial_system)) =
     [Transmission 0x61 [0x00, 0x10, 0x00, 0x00, 0x81]]
   \<and> trace (Wire (setAmbientPressure silent_device 1000 initial_system)) =
     [Transmission 0x61 [0x00, 0x10, 0x03, 0xE8, 0xD4]]"
proof -
  have crc0: "computeCRC8 [0x00, 0x00] 2 = Some 0x81" by code_simp
  have crc1: "computeCRC8 [0x03, 0xE8] 2 = Some 0xD4" by code_simp
  show ?thesis
    using setAmbientPressure_coerces [of 600 silent_device initial_system]
          setAmbientPressure_coerces [of 1300 silent_device initial_system]
          setAmbientPressure_coerces [of 1000 silent_device initial_system]
    by (simp add: crc0 crc1 initial_system_def SCD30_I2C_ADDRESS_def)
qed

text \<open>
  C6. \<^verbatim>\<open>begin()\<close> initialises the bus and transmits start-continuous-measurement with
  argument 0 (checksum \<open>0x81\<close>). When that transmission ends with a status other than 0
  it returns false and sends nothing more. When the status is 0 it transmits
  set-measurement-interval with argument 2 (checksum \<open>0xE3\<close>) and returns true, whatever
  the status of that second transmission.
\<close>

theorem begin_starts_measuring:
  "begin_scd30 dev s =
     (let started = trace (Wire s) @
            [BusBegin, Transmission SCD30_I2C_ADDRESS [0x00, 0x10, 0x00, 0x00, 0x81]]
      in if status dev started \<noteq> 0
         then (False, s\<lparr>Wire := (Wire s)\<lparr>txAddress := SCD30_I2C_ADDRESS, txBuffer := [],
                                           trace := started\<rparr>\<rparr>)
         else (True, s\<lparr>Wire := (Wire s)\<lparr>txAddress := SCD30_I2C_ADDRESS, txBuffer := [],
                 trace := started @
                   [Transmission SCD30_I2C_ADDRESS [0x46, 0x00, 0x00, 0x02, 0xE3]]\<rparr>\<rparr>))"
proof -
  have crc0: "computeCRC8 [0x00, 0x00] 2 = Some 0x81" by code_simp
  have crc2: "computeCRC8 [0x00, 0x02] 2 = Some 0xE3" by code_simp
  show ?thesis
    by (simp add: begin_scd30_def beginMeasuring_def beginMeasuring_offset_def
          setMeasurementInterval_def sendCommand_arg_def transmit_five Wire_begin_def Let_def
          SCD30_START_CONTINUOUS_MEASUREMENT_def SCD30_SET_MEASUREMENT_INTERVAL_def crc0 crc2)
qed

theorem begin_starts_measuring_witness:
  "begin_scd30 absent_device initial_system =
     (False, initial_system\<lparr>Wire := \<lparr>txAddress = 0x61, txBuffer = [], rxBuffer = [],
        trace = [BusBegin, Transmission 0x61 [0x00, 0x10, 0x00, 0x00, 0x81]]\<rparr>\<rparr>)
   \<and> begin_scd30 silent_device initial_system =
     (True, initial_system\<lparr>Wire := \<lparr>txAddress = 0x61, txBuffer = [], rxBuffer = [],
        trace = [BusBegin, Transmission 0x61 [0x00, 0x10, 0x00, 0x00, 0x81],
                 Transmission 0x61 [0x46, 0x00, 0x00, 0x02, 0xE3]]\<rparr>\<rparr>)"
  using begin_starts_measuring [of absent_device initial_system]
        begin_starts_measuring [of silent_device initial_system]
  by (simp add: silent_device_def absent_device_def initial_system_def SCD30_I2C_ADDRESS_def Let_def)

section \<open>Register reads\<close>

lemma request_two:
  "Wire_requestFrom dev a 2 w =
     w\<lparr>rxBuffer := take 2 (reply dev (trace w @ [Request a 2])), trace := trace w @ [Request a 2]\<rparr>"
  by (simp add: Wire_requestFrom_def Let_def)

lemma ucast_all_ones: "(ucast (- 1 :: uint8) :: uint16) = 0xFF"
proof -
  have "(- 1 :: uint8) = 0xFF" by simp
  moreover have "(ucast (0xFF :: uint8) :: uint16) = 0xFF" by simp
  ultimately show ?thesis by (simp only:)
qed

lemma readRegister_value:
  "fst (readRegister dev registerAddress s) =
     (let sent = trace (Wire s) @
            [Transmission SCD30_I2C_ADDRESS
               [ucast (drop_bit 8 registerAddress), ucast (registerAddress AND 0xFF)]];
          bytes = reply dev (sent @ [Request SCD30_I2C_ADDRESS 2])
      in if status dev sent \<noteq> 0 then 0
         else case bytes of
                [] \<Rightarrow> 0
              | [MSB] \<Rightarrow> push_bit 8 (ucast MSB) OR 0xFF
              | MSB # LSB # rest \<Rightarrow> push_bit 8 (ucast MSB) OR ucast LSB)"
  by (simp add: readRegister_def transmit_two request_two Wire_available_def Wire_read_def
        Let_def ucast_all_ones split: prod.splits list.splits)

text \<open>
  C9. \<^verbatim>\<open>readRegister\<close> gives 0 when the transmission of the address ends with a status
  other than 0, and 0 when the request brings no byte. Otherwise it gives the first byte
  shifted left by eight, OR-ed with the second byte; were the request to bring a single
  byte, the second read finds the buffer empty and supplies \<open>0xFF\<close>. The value alone
  does not tell the three situations apart: a device that does not acknowledge, a device
  that supplies no byte, and a register that holds zero all give 0.
\<close>

theorem readRegister_result:
  "fst (readRegister dev registerAddress s) =
     (let sent = trace (Wire s) @
            [Transmission SCD30_I2C_ADDRESS
               [ucast (drop_bit 8 registerAddress), ucast (registerAddress AND 0xFF)]];
          bytes = reply dev (sent @ [Request SCD30_I2C_ADDRESS 2])
      in if status dev sent \<noteq> 0 then 0
         else case bytes of
                [] \<Rightarrow> 0
              | [MSB] \<Rightarrow> push_bit 8 (ucast MSB) OR 0xFF
              | MSB # LSB # rest \<Rightarrow> push_bit 8 (ucast MSB) OR ucast LSB)
   \<and> fst (readRegister absent_device registerAddress s) = 0
   \<and> fst (readRegister silent_device registerAddress s) = 0
   \<and> fst (readRegister register_device registerAddress s) = 0"
proof -
  have not_acknowledged: "fst (readRegister absent_device registerAddress s) = 0"
    by (simp add: readRegister_value absent_device_def Let_def)
  have no_bytes: "fst (readRegister silent_device registerAddress s) = 0"
    by (simp add: readRegister_value silent_device_def Let_def)
  have zero_register: "fst (readRegister register_device registerAddress s) = 0"
    by (simp add: readRegister_value register_device_def Let_def)
  from readRegister_value [of dev registerAddress s] not_acknowledged no_bytes zero_register
  show ?thesis by (simp only: simp_thms)
qed

theorem readRegister_result_witness:
  "fst (readRegister firmware_device SCD30_READ_FIRMWARE_VERSION initial_system) = 0x0342
   \<and> fst (readRegister absent_device SCD30_READ_FIRMWARE_VERSION initial_system) = 0"
  using readRegister_result [of firmware_device SCD30_READ_FIRMWARE_VERSION initial_system]
        readRegister_result [of absent_device SCD30_READ_FIRMWARE_VERSION initial_system]
  by (simp add: firmware_device_def absent_device_def Let_def)

lemma readRegister_cache:
  "co2 (snd (readRegister dev a s)) = co2 s \<and>
   temperature (snd (readRegister dev a s)) = temperature s \<and>
   humidity (snd (readRegister dev a s)) = humidity s"
  by (simp add: readRegister_def transmit_two request_two Wire_available_def Wire_read_def
        Let_def split: prod.splits list.splits)

lemma readRegister_trace:
  "trace (Wire (snd (readRegister dev a s))) =
     (let sent = trace (Wire s) @
            [Transmission SCD30_I2C_ADDRESS [ucast (drop_bit 8 a), ucast (a AND 0xFF)]]
      in if status dev sent \<noteq> 0 then sent else sent @ [Request SCD30_I2C_ADDRESS 2])"
  by (simp add: readRegister_def transmit_two request_two Wire_available_def Wire_read_def
        Let_def split: prod.splits list.splits)

lemma dataAvailable_fst: "fst (dataAvailable dev s) = (fst (readRegister dev SCD30_GET_READY_STATUS s) = 1)"
  by (simp add: dataAvailable_def split: prod.splits)

lemma dataAvailable_snd: "snd (dataAvailable dev s) = snd (readRegister dev SCD30_GET_READY_STATUS s)"
  by (simp add: dataAvailable_def split: prod.splits)

section \<open>Measurement reads\<close>

lemma request_eighteen:
  "Wire_requestFrom dev a 18 w =
     w\<lparr>rxBuffer := take 18 (reply dev (trace w @ [Request a 18])),
       trace := trace w @ [Request a 18]\<rparr>"
  by (simp add: Wire_requestFrom_def Let_def)

lemma read_command_bytes:
  "(ucast (drop_bit 8 SCD30_READ_MEASUREMENT) :: uint8) = 0x03 \<and>
   (ucast (SCD30_READ_MEASUREMENT AND 0x00FF) :: uint8) = 0x00"
  by (simp add: SCD30_READ_MEASUREMENT_def)

lemma read_frame_full:
  "rxBuffer w = [b0, b1, b2, b3, b4, b5, b6, b7, b8, b9, b10, b11, b12, b13, b14, b15, b16, b17] \<Longrightarrow>
   read_frame 0 0 0 0 w =
     (push_bit 24 (ucast b0) OR push_bit 16 (ucast b1) OR push_bit 8 (ucast b3) OR ucast b4,
      push_bit 24 (ucast b12) OR push_bit 16 (ucast b13) OR push_bit 8 (ucast b15) OR ucast b16,
      push_bit 24 (ucast b6) OR push_bit 16 (ucast b7) OR push_bit 8 (ucast b9) OR ucast b10,
      w\<lparr>rxBuffer := []\<rparr>)"
  by (simp add: read_frame.simps Wire_read_def ac_simps)

lemma readMeasurement_nack:
  "status dev (trace (Wire s) @ [Transmission SCD30_I2C_ADDRESS [0x03, 0x00]]) \<noteq> 0 \<Longrightarrow>
   readMeasurement dev s =
     (False, s\<lparr>Wire := (Wire s)\<lparr>txAddress := SCD30_I2C_ADDRESS, txBuffer := [],
        trace := trace (Wire s) @ [Transmission SCD30_I2C_ADDRESS [0x03, 0x00]]\<rparr>\<rparr>)"
  by (simp add: readMeasurement_def read_command_bytes transmit_two Let_def)

lemma readMeasurement_ack:
  "status dev (trace (Wire s) @ [Transmission SCD30_I2C_ADDRESS [0x03, 0x00]]) = 0 \<Longrightarrow>
   fst (readMeasurement dev s) = True"
  by (simp add: readMeasurement_def read_command_bytes transmit_two Let_def split: prod.splits)

lemma readMeasurement_empty:
  "status dev (trace (Wire s) @ [Transmission SCD30_I2C_ADDRESS [0x03, 0x00]]) = 0 \<Longrightarrow>
   reply dev (trace (Wire s) @
      [Transmission SCD30_I2C_ADDRESS [0x03, 0x00], Request SCD30_I2C_ADDRESS 18]) = [] \<Longrightarrow>
   readMeasurement dev s =
     (True, s\<lparr>co2 := 0, temperature := 0, humidity := 0,
         Wire := (Wire s)\<lparr>txAddress := SCD30_I2C_ADDRESS, txBuffer := [], rxBuffer := [],
           trace := trace (Wire s) @
             [Transmission SCD30_I2C_ADDRESS [0x03, 0x00], Request SCD30_I2C_ADDRESS 18]\<rparr>\<rparr>)"
  by (simp add: readMeasurement_def read_command_bytes transmit_two request_eighteen
        Wire_available_def Let_def)

text \<open>
  The outcomes of \<^verbatim>\<open>readMeasurement\<close>: false exactly when the transmission of the command
  ends with a status other than 0, the cache then being left as it was; true with all
  three fields zero when the command is acknowledged and the request brings no byte.
\<close>

lemma readMeasurement_outcomes:
  "(fst (readMeasurement dev s) = False) =
     (status dev (trace (Wire s) @ [Transmission SCD30_I2C_ADDRESS [0x03, 0x00]]) \<noteq> 0)
   \<and> (status dev (trace (Wire s) @ [Transmission SCD30_I2C_ADDRESS [0x03, 0x00]]) \<noteq> 0 \<longrightarrow>
        co2 (snd (readMeasurement dev s)) = co2 s \<and>
        temperature (snd (readMeasurement dev s)) = temperature s \<and>
        humidity (snd (readMeasurement dev s)) = humidity s)
   \<and> (status dev (trace (Wire s) @ [Transmission SCD30_I2C_ADDRESS [0x03, 0x00]]) = 0 \<and>
        reply dev (trace (Wire s) @
          [Transmission SCD30_I2C_ADDRESS [0x03, 0x00], Request SCD30_I2C_ADDRESS 18]) = [] \<longrightarrow>
        fst (readMeasurement dev s) = True \<and>
        co2 (snd (readMeasurement dev s)) = 0 \<and>
        temperature (snd (readMeasurement dev s)) = 0 \<and>
        humidity (snd (readMeasurement dev s)) = 0)"
proof (cases "status dev (trace (Wire s) @ [Transmission SCD30_I2C_ADDRESS [0x03, 0x00]]) = 0")
  case True
  then show ?thesis
    using readMeasurement_ack [of dev s] readMeasurement_empty [of dev s] by auto
next
  case False
  then show ?thesis
    using readMeasurement_nack [of dev s] by simp
qed

lemma float_value_450: "float_value 0x43E10000 = 450"
  by (simp add: float_value_def float_sign_def float_scale_def float_exponent_def
        float_significand_def float_fraction_def)

lemma readMeasurement_frame:
  assumes "status dev (trace (Wire s) @ [Transmission SCD30_I2C_ADDRESS [0x03, 0x00]]) = 0"
    and "reply dev (trace (Wire s) @
           [Transmission SCD30_I2C_ADDRESS [0x03, 0x00], Request SCD30_I2C_ADDRESS 18]) =
         [b0, b1, b2, b3, b4, b5, b6, b7, b8, b9, b10, b11, b12, b13, b14, b15, b16, b17]"
  shows "readMeasurement dev s =
     (True,
      s\<lparr>co2 := push_bit 24 (ucast b0) OR push_bit 16 (ucast b1) OR push_bit 8 (ucast b3) OR ucast b4,
        temperature :=
          push_bit 24 (ucast b6) OR push_bit 16 (ucast b7) OR push_bit 8 (ucast b9) OR ucast b10,
        humidity :=
          push_bit 24 (ucast b12) OR push_bit 16 (ucast b13) OR push_bit 8 (ucast b15) OR ucast b16,
        Wire := (Wire s)\<lparr>txAddress := SCD30_I2C_ADDRESS, txBuffer := [], rxBuffer := [],
           trace := trace (Wire s) @
             [Transmission SCD30_I2C_ADDRESS [0x03, 0x00], Request SCD30_I2C_ADDRESS 18]\<rparr>\<rparr>)"
proof -
  let ?w = "(Wire s)\<lparr>txAddress := SCD30_I2C_ADDRESS, txBuffer := [],
       rxBuffer := [b0, b1, b2, b3, b4, b5, b6, b7, b8, b9, b10, b11, b12, b13, b14, b15, b16, b17],
       trace := trace (Wire s) @
         [Transmission SCD30_I2C_ADDRESS [0x03, 0x00], Request SCD30_I2C_ADDRESS 18]\<rparr>"
  have rd: "read_frame 0 0 0 0 ?w =
     (push_bit 24 (ucast b0) OR push_bit 16 (ucast b1) OR push_bit 8 (ucast b3) OR ucast b4,
      push_bit 24 (ucast b12) OR push_bit 16 (ucast b13) OR push_bit 8 (ucast b15) OR ucast b16,
      push_bit 24 (ucast b6) OR push_bit 16 (ucast b7) OR push_bit 8 (ucast b9) OR ucast b10,
      ?w\<lparr>rxBuffer := []\<rparr>)"
    by (rule read_frame_full) simp
  show ?thesis
    using assms
    by (simp add: readMeasurement_def read_command_bytes transmit_two request_eighteen
          Wire_available_def Let_def rd)
qed

text \<open>
  C2. For an acknowledged command and a response of 18 bytes, \<^verbatim>\<open>readMeasurement\<close>
  returns true and stores, as the bits of each \<^verbatim>\<open>float\<close>, the bytes at positions
  0, 1, 3, 4 (CO2), 6, 7, 9, 10 (temperature) and 12, 13, 15, 16 (humidity), first byte
  most significant. The bytes at positions 2, 5, 8, 11, 14 and 17 do not appear in the
  result. A CO2 field of \<open>0x43 0xE1 0x00 0x00\<close>, the big-endian binary32 encoding of
  450.0, is stored as the pattern \<open>0x43E10000\<close>, whose value is exactly 450.
\<close>

theorem readMeasurement_decodes:
  assumes "status dev (trace (Wire s) @ [Transmission SCD30_I2C_ADDRESS [0x03, 0x00]]) = 0"
    and "reply dev (trace (Wire s) @
           [Transmission SCD30_I2C_ADDRESS [0x03, 0x00], Request SCD30_I2C_ADDRESS 18]) =
         [b0, b1, b2, b3, b4, b5, b6, b7, b8, b9, b10, b11, b12, b13, b14, b15, b16, b17]"
  shows "fst (readMeasurement dev s) = True
    \<and> co2 (snd (readMeasurement dev s)) =
        push_bit 24 (ucast b0) OR push_bit 16 (ucast b1) OR push_bit 8 (ucast b3) OR ucast b4
    \<and> temperature (snd (readMeasurement dev s)) =
        push_bit 24 (ucast b6) OR push_bit 16 (ucast b7) OR push_bit 8 (ucast b9) OR ucast b10
    \<and> humidity (snd (readMeasurement dev s)) =
        push_bit 24 (ucast b12) OR push_bit 16 (ucast b13) OR push_bit 8 (ucast b15) OR ucast b16
    \<and> (b0 = 0x43 \<and> b1 = 0xE1 \<and> b3 = 0x00 \<and> b4 = 0x00 \<longrightarrow>
          co2 (snd (readMeasurement dev s)) = 0x43E10000 \<and>
          float_value (co2 (snd (readMeasurement dev s))) = 450)"
proof -
  have bits: "(push_bit 24 (ucast (0x43 :: uint8)) OR push_bit 16 (ucast (0xE1 :: uint8)) OR
      push_bit 8 (ucast (0x00 :: uint8)) OR ucast (0x00 :: uint8) :: uint32) = 0x43E10000"
    by simp
  show ?thesis
    using bits by (auto simp add: readMeasurement_frame [OF assms] float_value_450)
qed

theorem readMeasurement_decodes_witness:
  "fst (readMeasurement measuring_device initial_system) = True
   \<and> co2 (snd (readMeasurement measuring_device initial_system)) = 0x43E10000
   \<and> temperature (snd (readMeasurement measuring_device initial_system)) = 0xC1200000
   \<and> humidity (snd (readMeasurement measuring_device initial_system)) = 0x42480000
   \<and> float_value (co2 (snd (readMeasurement measuring_device initial_system))) = 450"
proof -
  have st: "status measuring_device
      (trace (Wire initial_system) @ [Transmission SCD30_I2C_ADDRESS [0x03, 0x00]]) = 0"
    by (simp add: measuring_device_def)
  have rp: "reply measuring_device (trace (Wire initial_system) @
           [Transmission SCD30_I2C_ADDRESS [0x03, 0x00], Request SCD30_I2C_ADDRESS 18]) =
         [0x43, 0xE1, 0xD5, 0x00, 0x00, 0x81, 0xC1, 0x20, 0x59, 0x00, 0x00, 0x81,
          0x42, 0x48, 0x55, 0x00, 0x00, 0x81]"
    by (simp add: measuring_device_def)
  show ?thesis
    using readMeasurement_decodes [OF st rp] by auto
qed

lemma read_frame_wire:
  "\<exists>rx. snd (snd (snd (read_frame b c h t w))) = w\<lparr>rxBuffer := rx\<rparr>"
proof (induction b c h t w rule: read_frame.induct)
  case (1 b tempCO2 tempHumidity tempTemperature w)
  show ?case
  proof (cases "b < 18")
    case False
    have "w = w\<lparr>rxBuffer := rxBuffer w\<rparr>" by simp
    with False show ?thesis
      by (subst read_frame.simps) (auto intro: exI [of _ "rxBuffer w"])
  next
    case True
    obtain r w1 where rd: "Wire_read w = (r, w1)" by (cases "Wire_read w")
    then have w1: "\<exists>rx. w1 = w\<lparr>rxBuffer := rx\<rparr>"
      by (auto simp add: Wire_read_def split: list.splits intro: exI [of _ "rxBuffer w"])
    from "1.IH" [OF True rd [symmetric] refl] w1 True rd show ?thesis
      by (subst read_frame.simps) (auto simp add: Let_def)
  qed
qed

lemma readMeasurement_trace:
  "trace (Wire (snd (readMeasurement dev s))) =
     (let sent = trace (Wire s) @ [Transmission SCD30_I2C_ADDRESS [0x03, 0x00]]
      in if status dev sent \<noteq> 0 then sent else sent @ [Request SCD30_I2C_ADDRESS 18])"
proof (cases "status dev (trace (Wire s) @ [Transmission SCD30_I2C_ADDRESS [0x03, 0x00]]) = 0")
  case False
  then show ?thesis by (simp add: readMeasurement_nack Let_def)
next
  case True
  let ?w5 = "Wire_requestFrom dev SCD30_I2C_ADDRESS 18
      ((Wire s)\<lparr>txAddress := SCD30_I2C_ADDRESS, txBuffer := [],
         trace := trace (Wire s) @ [Transmission SCD30_I2C_ADDRESS [0x03, 0x00]]\<rparr>)"
  obtain rx where rx: "snd (snd (snd (read_frame 0 0 0 0 ?w5))) = ?w5\<lparr>rxBuffer := rx\<rparr>"
    using read_frame_wire [of 0 0 0 0 ?w5] by blast
  obtain c h t w6 where rf: "read_frame 0 0 0 0 ?w5 = (c, h, t, w6)"
    by (cases "read_frame 0 0 0 0 ?w5") auto
  with rx have w6: "w6 = ?w5\<lparr>rxBuffer := rx\<rparr>" by simp
  show ?thesis
    using True
    by (simp add: readMeasurement_def read_command_bytes transmit_two Let_def rf w6
          split: prod.splits) (simp add: Wire_requestFrom_def Let_def)
qed

section \<open>Floating-point arithmetic\<close>

lemma pow2_powr: "pow2 e = 2 powr (real_of_int e)"
proof (cases "0 \<le> e")
  case True
  then have "real_of_int e = real (nat e)" by simp
  then show ?thesis using True by (simp only: pow2_def if_True powr_realpow zero_less_numeral)
next
  case False
  then have "real_of_int e = - real (nat (- e))" by simp
  then show ?thesis using False
    by (simp only: pow2_def if_False powr_minus powr_realpow zero_less_numeral) (simp add: field_simps)
qed

lemma pow2_pos: "0 < pow2 e"
  by (simp add: pow2_powr)

lemma pow2_add: "pow2 (a + b) = pow2 a * pow2 b"
  by (simp add: pow2_powr powr_add)

lemma pow2_mono: "a \<le> b \<Longrightarrow> pow2 a \<le> pow2 b"
  by (simp add: pow2_powr)

lemma pow2_less: "a < b \<Longrightarrow> pow2 a < pow2 b"
  by (simp add: pow2_powr)

lemma pow2_less_iff: "(pow2 a < pow2 b) = (a < b)"
  by (simp add: pow2_powr)

lemma pow2_nat: "pow2 (int n) = 2 ^ n"
  by (simp add: pow2_def)

lemma pow2_neg: "pow2 (- int n) = 1 / 2 ^ n"
  by (simp add: pow2_powr powr_minus powr_realpow field_simps)

lemma bit_length_bounds: "0 < n \<Longrightarrow> 2 ^ (bit_length n - 1) \<le> n \<and> n < 2 ^ bit_length n"
proof (induction n rule: bit_length.induct)
  case (1 n)
  show ?case
  proof (cases "n div 2 = 0")
    case True
    with "1.prems" have "n = 1" by (simp add: div_eq_0_iff) 
    then show ?thesis by (simp add: bit_length.simps)
  next
    case False
    then have h: "0 < n div 2" by simp
    from "1.prems" have n0: "n \<noteq> 0" by simp
    have ih: "2 ^ (bit_length (n div 2) - 1) \<le> n div 2 \<and> n div 2 < 2 ^ bit_length (n div 2)"
      using "1.IH" [OF n0 h] .
    have pos: "0 < bit_length (n div 2)"
      using h by (subst bit_length.simps) simp
    have bl: "bit_length n = Suc (bit_length (n div 2))"
      using n0 by (subst bit_length.simps) simp
    from pos obtain j where j: "bit_length (n div 2) = Suc j" by (cases "bit_length (n div 2)") auto
    from ih j have "2 ^ j \<le> n div 2" "n div 2 < 2 ^ Suc j" by simp_all
    then have "2 * 2 ^ j \<le> n" "n < 2 * 2 ^ Suc j" by linarith+
    then show ?thesis by (simp add: bl j)
  qed
qed

lemma bit_length_zero: "bit_length 0 = 0"
  by (simp add: bit_length.simps)

lemma bit_length_pos: "0 < n \<Longrightarrow> 0 < bit_length n"
  by (subst bit_length.simps) simp

lemma bit_length_le: "n < 2 ^ k \<Longrightarrow> bit_length n \<le> k"
proof (cases "n = 0")
  case True
  then show ?thesis by (simp add: bit_length_zero)
next
  case False
  assume "n < 2 ^ k"
  from False have "2 ^ (bit_length n - 1) \<le> n" using bit_length_bounds [of n] by simp
  with \<open>n < 2 ^ k\<close> have "(2::nat) ^ (bit_length n - 1) < 2 ^ k" by linarith
  then have "bit_length n - 1 < k" by (simp add: power_strict_increasing_iff)
  then show ?thesis by linarith
qed

lemma round_half_even_error:
  assumes "0 < d"
  shows "\<bar>real (round_half_even n d) * real d - real n\<bar> \<le> real d / 2"
proof -
  let ?q = "n div d" and ?r = "n mod d"
  have n: "real n = real ?q * real d + real ?r"
    by (metis mult.commute of_nat_add of_nat_mult div_mult_mod_eq)
  have r: "real ?r < real d" using assms by simp
  show ?thesis
    unfolding round_half_even_def Let_def using n r
    by (auto simp add: algebra_simps of_nat_less_iff [symmetric] simp del: of_nat_less_iff)
qed


lemma round_half_even_le:
  assumes "0 < d" "n < c * d"
  shows "round_half_even n d \<le> c"
proof -
  have "n div d < c" using assms by (simp add: less_mult_imp_div_less)
  then show ?thesis
    unfolding round_half_even_def Let_def by auto
qed

lemma pow2_diff_nat: "0 \<le> k \<Longrightarrow> pow2 (e + k) = pow2 e * 2 ^ nat k"
  by (simp add: pow2_add) (simp add: pow2_def)

lemma fp_round_finite:
  assumes bound: "real m * pow2 e * (1 + 1 / 2 ^ precision fmt) + pow2 (emin fmt - 1)
                    < pow2 (int (precision fmt) + emax fmt)"
  shows "\<exists>q e'. fp_round fmt s m e = Finite s q e' \<and> q \<le> 2 ^ precision fmt \<and> emin fmt \<le> e' \<and>
           (q = 0 \<or> int (bit_length q) + e' \<le> int (precision fmt) + emax fmt) \<and>
           \<bar>real q * pow2 e' - real m * pow2 e\<bar>
              \<le> real m * pow2 e / 2 ^ precision fmt + pow2 (emin fmt - 1)"
proof -
  let ?p = "precision fmt"
  define k where "k = max (int (bit_length m) - int ?p) (emin fmt - e)"
  define q where "q = (if k \<le> 0 then m else round_half_even m (2 ^ nat k))"
  define e' where "e' = (if k \<le> 0 then e else e + k)"
  have x0: "0 \<le> real m * pow2 e" using pow2_pos [of e] by simp
  have em: "emin fmt \<le> e'"
    unfolding e'_def k_def by auto
  have err: "\<bar>real q * pow2 e' - real m * pow2 e\<bar>
       \<le> real m * pow2 e / 2 ^ ?p + pow2 (emin fmt - 1)"
  proof (cases "k \<le> 0")
    case True
    then have "q = m" "e' = e" by (simp_all add: q_def e'_def)
    then show ?thesis using x0 pow2_pos [of "emin fmt - 1"] by simp
  next
    case False
    then have kpos: "0 < k" by simp
    have qe: "q = round_half_even m (2 ^ nat k)" "e' = e + k"
      using False by (simp_all add: q_def e'_def)
    have "\<bar>real q * real ((2::nat) ^ nat k) - real m\<bar> \<le> real ((2::nat) ^ nat k) / 2"
      unfolding qe by (rule round_half_even_error) simp
    then have a: "\<bar>real q * 2 ^ nat k - real m\<bar> \<le> 2 ^ nat k / 2" by simp
    have "real q * pow2 e' - real m * pow2 e = pow2 e * (real q * 2 ^ nat k - real m)"
      using kpos by (simp add: qe pow2_diff_nat algebra_simps)
    then have "\<bar>real q * pow2 e' - real m * pow2 e\<bar> = pow2 e * \<bar>real q * 2 ^ nat k - real m\<bar>"
      using pow2_pos [of e] by (simp add: abs_mult)
    also have "\<dots> \<le> pow2 e * (2 ^ nat k / 2)"
      using a pow2_pos [of e] by (simp add: mult_left_mono)
    also have "\<dots> = pow2 (e + k - 1)"
    proof -
      have "pow2 (e + k - 1) = pow2 (e + k) * pow2 (- 1)"
        using pow2_add [of "e + k" "- 1"] by simp
      also have "\<dots> = pow2 e * 2 ^ nat k * (1 / 2)"
        using kpos by (simp add: pow2_diff_nat) (simp add: pow2_def)
      finally show ?thesis by simp
    qed
    finally have b: "\<bar>real q * pow2 e' - real m * pow2 e\<bar> \<le> pow2 (e + k - 1)" .
    show ?thesis
    proof (cases "emin fmt - e \<le> int (bit_length m) - int ?p")
      case True
      then have kk: "k = int (bit_length m) - int ?p" by (simp add: k_def)
      with kpos have mpos: "0 < m"
        by (cases "m = 0") (simp_all add: bit_length_zero)
      then have blp: "0 < bit_length m" by (rule bit_length_pos)
      have lo: "2 ^ (bit_length m - 1) \<le> m" using bit_length_bounds [OF mpos] by simp
      have "e + k - 1 = e + int (bit_length m - 1) + (- int ?p)"
        using kk blp by simp
      then have "pow2 (e + k - 1) = pow2 e * 2 ^ (bit_length m - 1) * (1 / 2 ^ ?p)"
        by (simp only: pow2_add pow2_nat pow2_neg)
      also have "\<dots> \<le> pow2 e * real m * (1 / 2 ^ ?p)"
      proof -
        have "(2::real) ^ (bit_length m - 1) \<le> real m"
          using lo by (metis of_nat_le_iff of_nat_numeral of_nat_power)
        then show ?thesis using pow2_pos [of e]
          by (simp add: mult_left_mono mult_right_mono divide_right_mono)
      qed
      finally have "pow2 (e + k - 1) \<le> real m * pow2 e / 2 ^ ?p" by (simp add: mult.commute)
      with b show ?thesis using pow2_pos [of "emin fmt - 1"] by linarith
    next
      case False
      then have "k = emin fmt - e" by (simp add: k_def)
      then have "e + k - 1 = emin fmt - 1" by simp
      with b x0 show ?thesis
        by (metis add_increasing divide_nonneg_nonneg zero_le_numeral zero_le_power)
    qed
  qed
  have qle: "q \<le> 2 ^ ?p"
  proof (cases "k \<le> 0")
    case True
    then have "bit_length m \<le> ?p" by (simp add: k_def)
    moreover have "m < 2 ^ bit_length m"
      by (cases "m = 0") (simp_all add: bit_length_bounds)
    ultimately have "m < 2 ^ ?p"
      by (meson le_less_trans less_le_trans one_le_numeral power_increasing not_le)
    with True show ?thesis by (simp add: q_def)
  next
    case False
    then have kpos: "0 < k" by simp
    have "int (bit_length m) \<le> int ?p + k" by (simp add: k_def)
    then have "bit_length m \<le> ?p + nat k" using kpos by linarith
    moreover have "m < 2 ^ bit_length m"
      by (cases "m = 0") (simp_all add: bit_length_bounds)
    ultimately have "m < 2 ^ (?p + nat k)"
      by (meson less_le_trans one_le_numeral power_increasing)
    then have "m < 2 ^ ?p * 2 ^ nat k" by (simp add: power_add)
    then have "round_half_even m (2 ^ nat k) \<le> 2 ^ ?p"
      by (intro round_half_even_le) simp_all
    with False show ?thesis by (simp add: q_def)
  qed
  have nov: "\<not> (q \<noteq> 0 \<and> int ?p + emax fmt < int (bit_length q) + e')"
  proof
    assume ov: "q \<noteq> 0 \<and> int ?p + emax fmt < int (bit_length q) + e'"
    then have qpos: "0 < q" by simp
    then have blq: "0 < bit_length q" by (rule bit_length_pos)
    have lo: "2 ^ (bit_length q - 1) \<le> q" using bit_length_bounds [OF qpos] by simp
    have "(2::real) ^ (bit_length q - 1) \<le> real q"
      using lo by (metis of_nat_le_iff of_nat_numeral of_nat_power)
    then have "pow2 (int (bit_length q - 1)) * pow2 e' \<le> real q * pow2 e'"
      using pow2_pos [of e'] by (simp add: pow2_nat mult_right_mono)
    then have "pow2 (int (bit_length q - 1) + e') \<le> real q * pow2 e'"
      by (simp add: pow2_add)
    moreover have "int ?p + emax fmt \<le> int (bit_length q - 1) + e'"
      using ov blq by linarith
    ultimately have "pow2 (int ?p + emax fmt) \<le> real q * pow2 e'"
      using pow2_mono order_trans by blast
    moreover have "real q * pow2 e' \<le> real m * pow2 e + (real m * pow2 e / 2 ^ ?p + pow2 (emin fmt - 1))"
      using err by linarith
    ultimately show False using bound by (simp add: algebra_simps)
  qed
  have "fp_round fmt s m e = Finite s q e'"
    using nov unfolding fp_round_def Let_def k_def [symmetric] q_def [symmetric] e'_def [symmetric]
    by simp
  moreover have "q = 0 \<or> int (bit_length q) + e' \<le> int ?p + emax fmt"
    using nov by auto
  ultimately show ?thesis using qle em err by blast
qed


lemma float_exponent_unat: "float_exponent f = (unat f div 2 ^ 23) mod 256"
proof -
  have "(0xFF :: float32) = mask 8" by (simp add: mask_eq_exp_minus_1)
  then have "drop_bit 23 f AND 0xFF = take_bit 8 (drop_bit 23 f)"
    by (simp only: take_bit_eq_mask)
  then have "float_exponent f = take_bit 8 (drop_bit 23 (unat f))"
    by (simp only: float_exponent_def unsigned_take_bit_eq unat_drop_bit_eq)
  then show ?thesis by (simp add: take_bit_eq_mod drop_bit_eq_div)
qed

lemma float_fraction_unat: "float_fraction f = unat f mod 2 ^ 23"
proof -
  have "(0x7FFFFF :: float32) = mask 23" by (simp add: mask_eq_exp_minus_1)
  then have "f AND 0x7FFFFF = take_bit 23 f"
    by (simp only: take_bit_eq_mask)
  then have "float_fraction f = take_bit 23 (unat f)"
    by (simp only: float_fraction_def unsigned_take_bit_eq)
  then show ?thesis by (simp add: take_bit_eq_mod)
qed

lemma float_sign_unat: "float_sign f = (2 ^ 31 \<le> unat f)"
proof -
  have lt: "unat f < 2 ^ 32" using unsigned_less [of f, where 'a = nat] by simp
  have "float_sign f = bit (unat f) 31"
    by (simp add: float_sign_def bit_unsigned_iff)
  also have "\<dots> = odd (unat f div 2 ^ 31)" by (rule bit_iff_odd)
  also have "\<dots> = (2 ^ 31 \<le> unat f)"
  proof (cases "2 ^ 31 \<le> unat f")
    case True
    with lt have "unat f div 2 ^ 31 = 1" by simp
    with True show ?thesis by simp
  next
    case False
    then have "unat f div 2 ^ 31 = 0" by simp
    with False show ?thesis by simp
  qed
  finally show ?thesis .
qed

lemma unat_word_of_nat32: "n < 2 ^ 32 \<Longrightarrow> unat (word_of_nat n :: float32) = n"
  by (simp add: unat_of_nat)

lemma unat_float32_bits:
  assumes "ex < 256" "fr < 2 ^ 23"
  shows "unat (float32_bits s ex fr) = ((if s then 256 else 0) + ex) * 2 ^ 23 + fr"
proof -
  have "ex * 2 ^ 23 + fr < 2 ^ 31" using assms by simp
  then have lt: "(if s then 2 ^ 31 else 0) + ex * 2 ^ 23 + fr < (2::nat) ^ 32" by simp
  have "unat (float32_bits s ex fr) = (if s then 2 ^ 31 else 0) + ex * 2 ^ 23 + fr"
    unfolding float32_bits_def by (rule unat_word_of_nat32 [OF lt])
  then show ?thesis by (simp add: algebra_simps)
qed

lemma float32_bits_fields:
  assumes "ex < 256" "fr < 2 ^ 23"
  shows "float_sign (float32_bits s ex fr) = s"
    and "float_exponent (float32_bits s ex fr) = ex"
    and "float_fraction (float32_bits s ex fr) = fr"
proof -
  let ?c = "(if s then 256 else 0) :: nat"
  have u: "unat (float32_bits s ex fr) = (?c + ex) * 2 ^ 23 + fr"
    by (rule unat_float32_bits [OF assms])
  have lt: "ex * 2 ^ 23 + fr < 2 ^ 31" using assms by simp
  show "float_sign (float32_bits s ex fr) = s"
    using lt by (simp add: float_sign_unat u algebra_simps)
  have d: "((?c + ex) * 2 ^ 23 + fr) div 2 ^ 23 = ?c + ex"
    using assms(2) by (simp only: div_mult_self3 zero_less_numeral zero_less_power) simp
  show "float_exponent (float32_bits s ex fr) = ex"
    using assms(1) by (simp only: float_exponent_unat u d) simp
  have m: "((?c + ex) * 2 ^ 23 + fr) mod 2 ^ 23 = fr"
    using assms(2) by (simp only: mod_mult_self3) simp
  show "float_fraction (float32_bits s ex fr) = fr"
    by (simp only: float_fraction_unat u m)
qed

lemma float_value_pow2:
  "float_value f =
     (if float_sign f then - 1 else 1) * real (float_significand f) * pow2 (int (float_scale f) - 150)"
proof (cases "150 \<le> float_scale f")
  case True
  then have "pow2 (int (float_scale f) - 150) = 2 ^ (float_scale f - 150)"
    by (simp add: pow2_def nat_diff_distrib')
  with True show ?thesis by (simp add: float_value_def)
next
  case False
  then have "pow2 (int (float_scale f) - 150) = 1 / 2 ^ (150 - float_scale f)"
    by (simp add: pow2_def nat_diff_distrib')
  with False show ?thesis by (simp add: float_value_def)
qed


lemma float_fields_value:
  assumes "float_exponent f = ex" "float_fraction f = fr" "float_sign f = s"
  shows "float_value f =
     (if s then - 1 else 1) * real (if ex = 0 then fr else 2 ^ 23 + fr) *
       pow2 (int (if ex = 0 then 1 else ex) - 150)"
  using assms by (simp add: float_value_pow2 float_significand_def float_scale_def)

lemma encode_float32_value:
  assumes q: "q \<le> 2 ^ 24" and e: "- 149 \<le> e"
    and nov: "q = 0 \<or> int (bit_length q) + e \<le> 128"
  shows "float_finite (encode_float32 s q e) \<and>
         float_value (encode_float32 s q e) = (if s then - 1 else 1) * (real q * pow2 e)"
proof (cases "q = 0")
  case True
  have f: "float_sign (float32_bits s 0 0) = s" "float_exponent (float32_bits s 0 0) = 0"
    "float_fraction (float32_bits s 0 0) = 0"
    by (simp_all add: float32_bits_fields)
  show ?thesis
    using True by (simp add: encode_float32_def float_finite_def f float_fields_value [OF f(2) f(3) f(1)])
next
  case False
  then have qpos: "0 < q" by simp
  let ?b = "bit_length q"
  have bpos: "0 < ?b" using qpos by (rule bit_length_pos)
  have lo: "2 ^ (?b - 1) \<le> q" and hi: "q < 2 ^ ?b"
    using bit_length_bounds [OF qpos] by simp_all
  have b25: "?b \<le> 25"
    using q by (intro bit_length_le) simp
  from nov False have be: "int ?b + e \<le> 128" by simp
  show ?thesis
  proof (cases "e + int ?b - 1 < - 126")
    case True
    let ?fr = "q * 2 ^ nat (e + 149)"
    have ex: "nat (e + 149) + ?b \<le> 23" using True e by linarith
    have "?fr < 2 ^ ?b * 2 ^ nat (e + 149)" using hi by simp
    also have "\<dots> = 2 ^ (nat (e + 149) + ?b)" by (simp add: power_add)
    also have "\<dots> \<le> 2 ^ 23" using ex by (intro power_increasing) simp_all
    finally have fr: "?fr < 2 ^ 23" .
    have f: "float_sign (float32_bits s 0 ?fr) = s" "float_exponent (float32_bits s 0 ?fr) = 0"
      "float_fraction (float32_bits s 0 ?fr) = ?fr"
      using fr by (simp_all add: float32_bits_fields)
    have enc: "encode_float32 s q e = float32_bits s 0 ?fr"
      using True False by (simp add: encode_float32_def Let_def)
    have "pow2 e = 2 ^ nat (e + 149) * pow2 (- 149)"
      using pow2_diff_nat [of "e + 149" "- 149"] e by (simp add: mult.commute)
    then have "real ?fr * pow2 (- 149) = real q * pow2 e" by simp
    then show ?thesis
      by (simp add: enc float_finite_def f float_fields_value [OF f(2) f(3) f(1)])
  next
    case False
    then have E: "- 126 \<le> e + int ?b - 1" by simp
    let ?ex = "nat (e + int ?b + 126)"
    let ?mant = "if 24 \<le> int ?b then q div 2 ^ nat (int ?b - 24) else q * 2 ^ nat (24 - int ?b)"
    have ex1: "0 < ?ex" "?ex < 255" using E be by simp_all
    have mant: "2 ^ 23 \<le> ?mant \<and> ?mant < 2 ^ 24 \<and>
        real ?mant * pow2 (e + int ?b - 24) = real q * pow2 e"
    proof (cases "?b = 25")
      case True
      with lo q have q24: "q = 2 ^ 24" by simp
      have "pow2 (1 + e) = 2 * pow2 e" using pow2_diff_nat [of 1 e] by (simp add: add.commute)
      then show ?thesis using True by (simp add: q24)
    next
      case False
      with b25 have b24: "?b \<le> 24" by simp
      have m: "?mant = q * 2 ^ (24 - ?b)"
      proof (cases "?b = 24")
        case True then show ?thesis by simp
      next
        case False
        with b24 have "\<not> 24 \<le> int ?b" by simp
        moreover have "nat (24 - int ?b) = 24 - ?b" by simp
        ultimately show ?thesis by simp
      qed
      have a1: "2 ^ (?b - 1) * 2 ^ (24 - ?b) \<le> q * 2 ^ (24 - ?b)"
        by (rule mult_le_mono1 [OF lo])
      have a2: "(2::nat) ^ (?b - 1) * 2 ^ (24 - ?b) = 2 ^ 23"
        using bpos b24 by (simp add: power_add [symmetric])
      have l: "2 ^ 23 \<le> q * 2 ^ (24 - ?b)" using a1 unfolding a2 .
      have a3: "q * 2 ^ (24 - ?b) < 2 ^ ?b * 2 ^ (24 - ?b)"
        using hi by (intro mult_less_mono1) simp_all
      have a4: "(2::nat) ^ ?b * 2 ^ (24 - ?b) = 2 ^ 24"
        using b24 by (simp add: power_add [symmetric])
      have h: "q * 2 ^ (24 - ?b) < 2 ^ 24" using a3 unfolding a4 .
      have n24: "nat (int (24 - ?b)) = 24 - ?b" by simp
      have "e + int ?b - 24 + int (24 - ?b) = e" using b24 by simp
      then have "pow2 e = pow2 (e + int ?b - 24) * 2 ^ (24 - ?b)"
        using pow2_diff_nat [of "int (24 - ?b)" "e + int ?b - 24"] by (simp only: n24)
      then have "real (q * 2 ^ (24 - ?b)) * pow2 (e + int ?b - 24) = real q * pow2 e"
        by simp
      with l h show ?thesis by (simp only: m)
    qed
    define mant where "mant = ?mant"
    have mant': "2 ^ 23 \<le> mant" "mant < 2 ^ 24" "real mant * pow2 (e + int ?b - 24) = real q * pow2 e"
      using mant unfolding mant_def by blast+
    let ?fr = "mant - 2 ^ 23"
    have fr: "?fr < 2 ^ 23" using mant'(1,2) by simp
    have sig: "2 ^ 23 + ?fr = mant" using mant'(1) by simp
    have f: "float_sign (float32_bits s ?ex ?fr) = s"
      "float_exponent (float32_bits s ?ex ?fr) = ?ex"
      "float_fraction (float32_bits s ?ex ?fr) = ?fr"
      using fr ex1 by (simp_all add: float32_bits_fields)
    have enc: "encode_float32 s q e = float32_bits s ?ex ?fr"
      using False \<open>q \<noteq> 0\<close> by (simp add: encode_float32_def Let_def mant_def)
    have sc: "int ?ex - 150 = e + int ?b - 24" using E by simp
    have v: "float_value (float32_bits s ?ex ?fr) =
        (if s then - 1 else 1) * real mant * pow2 (e + int ?b - 24)"
      using ex1 by (simp only: float_fields_value [OF f(2) f(3) f(1)] sig sc) simp
    have "?ex \<noteq> 255" using ex1 by simp
    then have "float_finite (float32_bits s ?ex ?fr)"
      by (simp only: float_finite_def f(2) not_False_eq_True)
    moreover have "float_value (float32_bits s ?ex ?fr) = (if s then - 1 else 1) * (real q * pow2 e)"
      using mant'(3) by (simp only: v mult.assoc)
    ultimately show ?thesis by (simp only: enc)
  qed
qed


lemma holds_float_round:
  assumes w: "holds_float fmt" and x: "real m * pow2 e \<le> 2 ^ 120"
  shows "fp_finite (fp_round fmt s m e) \<and>
         \<bar>fp_value (fp_round fmt s m e) - (if s then - 1 else 1) * (real m * pow2 e)\<bar>
            \<le> real m * pow2 e / 2 ^ 24 + 1 / 2 ^ 150"
proof -
  define x where "x = real m * pow2 e"
  let ?p = "precision fmt"
  define xp where "xp = x / 2 ^ ?p"
  have x0: "0 \<le> x" unfolding x_def using pow2_pos [of e] by simp
  have x120: "x \<le> 2 ^ 120" using x by (simp only: x_def)
  have p24: "(2::real) ^ 24 \<le> 2 ^ ?p"
    using w by (intro power_increasing) (simp_all add: holds_float_def)
  have eta: "pow2 (emin fmt - 1) \<le> 1 / 2 ^ 150"
  proof -
    have "pow2 (emin fmt - 1) \<le> pow2 (- int 150)"
      using w by (intro pow2_mono) (simp add: holds_float_def)
    then show ?thesis by (simp only: pow2_neg)
  qed
  have top: "2 ^ 128 \<le> pow2 (int ?p + emax fmt)"
  proof -
    have "pow2 (int 128) \<le> pow2 (int ?p + emax fmt)"
      using w by (intro pow2_mono) (simp add: holds_float_def)
    then show ?thesis by (simp only: pow2_nat)
  qed
  have frac: "xp \<le> x / 2 ^ 24"
    unfolding xp_def using x0 p24 by (intro divide_left_mono) simp_all
  have "x / 2 ^ 24 \<le> x" using x0 by simp
  with frac have xpx: "xp \<le> x" by linarith
  have "x * (1 + 1 / 2 ^ ?p) = x + xp" by (simp add: xp_def algebra_simps)
  moreover have "2 * x + 1 / 2 ^ 150 < (2::real) ^ 128" using x120 by simp
  ultimately have "x * (1 + 1 / 2 ^ ?p) + pow2 (emin fmt - 1) < pow2 (int ?p + emax fmt)"
    using eta top xpx by linarith
  then have "real m * pow2 e * (1 + 1 / 2 ^ ?p) + pow2 (emin fmt - 1) < pow2 (int ?p + emax fmt)"
    by (simp only: x_def)
  from fp_round_finite [OF this, of s] obtain q e' where
    r: "fp_round fmt s m e = Finite s q e'"
    and err: "\<bar>real q * pow2 e' - x\<bar> \<le> xp + pow2 (emin fmt - 1)"
    unfolding x_def xp_def by blast
  have "fp_value (fp_round fmt s m e) - (if s then - 1 else 1) * x =
      (if s then - 1 else 1) * (real q * pow2 e' - x)"
    by (simp add: r algebra_simps)
  then have "\<bar>fp_value (fp_round fmt s m e) - (if s then - 1 else 1) * x\<bar> = \<bar>real q * pow2 e' - x\<bar>"
    by (simp add: abs_mult)
  with err frac eta have "\<bar>fp_value (fp_round fmt s m e) - (if s then - 1 else 1) * x\<bar>
      \<le> x / 2 ^ 24 + 1 / 2 ^ 150" by linarith
  then show ?thesis by (simp add: r x_def)
qed


lemma float_field_bounds: "float_fraction f < 2 ^ 23" "float_exponent f < 256"
  by (simp_all add: float_fraction_unat float_exponent_unat)

lemma fp_round_exact:
  assumes "bit_length m \<le> precision fmt" "emin fmt \<le> e"
    and "int (bit_length m) + e \<le> int (precision fmt) + emax fmt"
  shows "fp_round fmt s m e = Finite s m e"
proof -
  have "max (int (bit_length m) - int (precision fmt)) (emin fmt - e) \<le> 0"
    using assms by simp
  then show ?thesis using assms(3) by (simp add: fp_round_def Let_def)
qed

lemma fp_of_float_exact:
  assumes w: "holds_float fmt" and fin: "float_finite f"
  shows "fp_of_float fmt f =
      Finite (float_sign f) (float_significand f) (int (float_scale f) - 150)"
proof -
  have sig: "float_significand f < 2 ^ 24"
    using float_field_bounds(1) [of f] by (simp add: float_significand_def)
  then have bl: "bit_length (float_significand f) \<le> 24" by (rule bit_length_le)
  have ex: "float_exponent f < 255"
    using fin float_field_bounds(2) [of f] by (simp add: float_finite_def)
  then have sc: "1 \<le> float_scale f" "float_scale f \<le> 254" by (simp_all add: float_scale_def)
  have "fp_round fmt (float_sign f) (float_significand f) (int (float_scale f) - 150) =
      Finite (float_sign f) (float_significand f) (int (float_scale f) - 150)"
    using w bl sc by (intro fp_round_exact) (simp_all add: holds_float_def)
  then show ?thesis using ex by (simp add: fp_of_float_def)
qed

lemma fp_of_float_value:
  assumes "holds_float fmt" "float_finite f"
  shows "fp_finite (fp_of_float fmt f) \<and> fp_value (fp_of_float fmt f) = float_value f"
  by (simp add: fp_of_float_exact [OF assms] float_value_pow2)

lemma fp_of_int_32:
  assumes w: "holds_float fmt"
  shows "fp_of_int fmt 32 = Finite False 32 0"
proof -
  have bl: "bit_length 32 = 6" by (simp add: bit_length.simps)
  show ?thesis
    unfolding fp_of_int_def using w
    by (simp add: fp_round_exact bl holds_float_def)
qed

lemma fp_mul_error:
  assumes w: "holds_float fmt" and a: "fp_finite a" and b: "fp_finite b"
    and x: "\<bar>fp_value a * fp_value b\<bar> \<le> 2 ^ 120"
  shows "fp_finite (fp_mul fmt a b) \<and>
         \<bar>fp_value (fp_mul fmt a b) - fp_value a * fp_value b\<bar>
            \<le> \<bar>fp_value a * fp_value b\<bar> / 2 ^ 24 + 1 / 2 ^ 150"
proof -
  from a obtain s1 m1 e1 where A: "a = Finite s1 m1 e1" by (cases a) simp_all
  from b obtain s2 m2 e2 where B: "b = Finite s2 m2 e2" by (cases b) simp_all
  have mag: "real (m1 * m2) * pow2 (e1 + e2) = \<bar>fp_value a * fp_value b\<bar>"
    using pow2_pos [of e1] pow2_pos [of e2]
    by (simp add: A B pow2_add abs_mult algebra_simps)
  have val: "(if s1 \<noteq> s2 then - 1 else 1) * \<bar>fp_value a * fp_value b\<bar> =
      fp_value a * fp_value b"
    using pow2_pos [of e1] pow2_pos [of e2]
    by (simp add: A B abs_mult algebra_simps)
  have m: "fp_mul fmt a b = fp_round fmt (s1 \<noteq> s2) (m1 * m2) (e1 + e2)"
    by (simp add: A B fp_mul_def)
  from x have "real (m1 * m2) * pow2 (e1 + e2) \<le> 2 ^ 120" by (simp only: mag)
  from holds_float_round [OF w this, of "s1 \<noteq> s2"] show ?thesis
    unfolding m mag val .
qed

lemma fp_add_error:
  assumes w: "holds_float fmt" and a: "fp_finite a" and b: "fp_finite b"
    and x: "\<bar>fp_value a + fp_value b\<bar> \<le> 2 ^ 120"
  shows "fp_finite (fp_add fmt a b) \<and>
         \<bar>fp_value (fp_add fmt a b) - (fp_value a + fp_value b)\<bar>
            \<le> \<bar>fp_value a + fp_value b\<bar> / 2 ^ 24 + 1 / 2 ^ 150"
proof -
  from a obtain s1 m1 e1 where A: "a = Finite s1 m1 e1" by (cases a) simp_all
  from b obtain s2 m2 e2 where B: "b = Finite s2 m2 e2" by (cases b) simp_all
  define e where "e = min e1 e2"
  define t where "t = (if s1 then - 1 else 1) * int m1 * 2 ^ nat (e1 - e) +
                   (if s2 then - 1 else 1) * int m2 * 2 ^ nat (e2 - e)"
  have p1: "pow2 e1 = pow2 e * 2 ^ nat (e1 - e)"
    using pow2_diff_nat [of "e1 - e" e] by (simp add: e_def)
  have p2: "pow2 e2 = pow2 e * 2 ^ nat (e2 - e)"
    using pow2_diff_nat [of "e2 - e" e] by (simp add: e_def)
  have sum: "real_of_int t * pow2 e = fp_value a + fp_value b"
    by (simp add: t_def A B p1 p2 algebra_simps)
  show ?thesis
  proof (cases "t = 0")
    case True
    then have "fp_add fmt a b = Finite (s1 \<and> s2) 0 e"
      by (simp add: fp_add_def A B Let_def e_def [symmetric] t_def [symmetric])
    moreover from True sum have "fp_value a + fp_value b = 0" by simp
    ultimately show ?thesis by simp
  next
    case False
    then have r: "fp_add fmt a b = fp_round fmt (t < 0) (nat \<bar>t\<bar>) e"
      by (simp add: fp_add_def A B Let_def e_def [symmetric] t_def [symmetric])
    have "\<bar>real_of_int t * pow2 e\<bar> = \<bar>real_of_int t\<bar> * pow2 e"
      using pow2_pos [of e] by (simp add: abs_mult)
    moreover have "real (nat \<bar>t\<bar>) = \<bar>real_of_int t\<bar>" by simp
    ultimately have mag: "real (nat \<bar>t\<bar>) * pow2 e = \<bar>fp_value a + fp_value b\<bar>"
      by (simp only: sum)
    have "(if t < 0 then - 1 else 1) * \<bar>real_of_int t * pow2 e\<bar> = real_of_int t * pow2 e"
      using pow2_pos [of e] by (simp add: abs_mult)
    then have val: "(if t < 0 then - 1 else 1) * \<bar>fp_value a + fp_value b\<bar> =
        fp_value a + fp_value b"
      by (simp only: sum)
    from x have "real (nat \<bar>t\<bar>) * pow2 e \<le> 2 ^ 120" by (simp only: mag)
    from holds_float_round [OF w this, of "t < 0"] show ?thesis
      unfolding r mag val .
  qed
qed


lemma fp_literal_error:
  assumes d: "0 < d" and b: "bit_length (n div d) \<le> precision fmt"
  shows "fp_finite (fp_literal fmt n d) \<and> 0 \<le> fp_value (fp_literal fmt n d) \<and>
         \<bar>fp_value (fp_literal fmt n d) - real n / real d\<bar>
            \<le> pow2 (int (bit_length (n div d)) - int (precision fmt) - 1)"
proof -
  let ?b = "bit_length (n div d)" and ?p = "precision fmt"
  define N where "N = n * 2 ^ (?p - ?b)"
  define m where "m = round_half_even N d"
  define u where "u = pow2 (int ?b - int ?p)"
  have lit: "fp_literal fmt n d = Finite False m (int ?b - int ?p)"
    by (simp add: fp_literal_def Let_def m_def N_def)
  have upos: "0 < u" unfolding u_def by (rule pow2_pos)
  have "int ?b - int ?p = - int (?p - ?b)" using b by simp
  then have "u = 1 / 2 ^ (?p - ?b)" by (simp only: u_def pow2_neg)
  then have one: "u * 2 ^ (?p - ?b) = 1" by simp
  have "\<bar>real m * real d - real N\<bar> \<le> real d / 2"
    unfolding m_def by (rule round_half_even_error [OF d])
  then have "\<bar>real m * real d - real N\<bar> / real d \<le> (real d / 2) / real d"
    using d by (intro divide_right_mono) simp_all
  then have "\<bar>(real m * real d - real N) / real d\<bar> \<le> 1 / 2"
    using d by simp
  moreover have "(real m * real d - real N) / real d = real m - real N / real d"
    using d by (simp add: field_simps)
  ultimately have e1: "\<bar>real m - real N / real d\<bar> \<le> 1 / 2" by simp
  have "real N / real d * u = real n / real d * (u * 2 ^ (?p - ?b))"
    by (simp add: N_def)
  then have nd: "real N / real d * u = real n / real d" by (simp only: one mult_1_right)
  have "\<bar>real m * u - real n / real d\<bar> = \<bar>(real m - real N / real d) * u\<bar>"
    by (simp only: nd [symmetric]) (simp add: algebra_simps)
  also have "\<dots> = \<bar>real m - real N / real d\<bar> * u"
    using upos by (simp add: abs_mult)
  also have "\<dots> \<le> (1 / 2) * u"
    using e1 upos by (intro mult_right_mono) simp_all
  also have "\<dots> = pow2 (int ?b - int ?p - 1)"
  proof -
    have "pow2 (int ?b - int ?p - 1) = pow2 (int ?b - int ?p) * pow2 (- 1)"
      using pow2_add [of "int ?b - int ?p" "- 1"] by simp
    then show ?thesis by (simp add: u_def pow2_def)
  qed
  finally have "\<bar>real m * u - real n / real d\<bar> \<le> pow2 (int ?b - int ?p - 1)" .
  then show ?thesis using upos by (simp add: lit u_def)
qed

lemma literal_1_8:
  assumes w: "holds_float fmt"
  shows "fp_finite (fp_literal fmt 18 10)" "0 \<le> fp_value (fp_literal fmt 18 10)"
    "\<bar>fp_value (fp_literal fmt 18 10) - 18 / 10\<bar> \<le> 1 / 2 ^ 24"
proof -
  have bl: "bit_length (18 div 10) = 1" by (simp add: bit_length.simps)
  have b: "bit_length (18 div 10) \<le> precision fmt"
    using w by (simp only: bl) (simp add: holds_float_def)
  note l = fp_literal_error [of 10 18 fmt, OF _ b]
  have "pow2 (int (bit_length (18 div 10)) - int (precision fmt) - 1) \<le> pow2 (- int 24)"
    using w by (intro pow2_mono) (simp only: bl, simp add: holds_float_def)
  then have "pow2 (int (bit_length (18 div 10)) - int (precision fmt) - 1) \<le> 1 / 2 ^ 24"
    by (simp only: pow2_neg)
  with l show "fp_finite (fp_literal fmt 18 10)" "0 \<le> fp_value (fp_literal fmt 18 10)"
    "\<bar>fp_value (fp_literal fmt 18 10) - 18 / 10\<bar> \<le> 1 / 2 ^ 24"
    by simp_all
qed

lemma literal_273_15:
  assumes w: "holds_float fmt"
  shows "fp_finite (fp_literal fmt 27315 100)" "0 \<le> fp_value (fp_literal fmt 27315 100)"
    "\<bar>fp_value (fp_literal fmt 27315 100) - 27315 / 100\<bar> \<le> 1 / 2 ^ 16"
proof -
  have bl: "bit_length (27315 div 100) = 9" by (simp add: bit_length.simps)
  have b: "bit_length (27315 div 100) \<le> precision fmt"
    using w by (simp only: bl) (simp add: holds_float_def)
  note l = fp_literal_error [of 100 27315 fmt, OF _ b]
  have "pow2 (int (bit_length (27315 div 100)) - int (precision fmt) - 1) \<le> pow2 (- int 16)"
    using w by (intro pow2_mono) (simp only: bl, simp add: holds_float_def)
  then have "pow2 (int (bit_length (27315 div 100)) - int (precision fmt) - 1) \<le> 1 / 2 ^ 16"
    by (simp only: pow2_neg)
  with l show "fp_finite (fp_literal fmt 27315 100)" "0 \<le> fp_value (fp_literal fmt 27315 100)"
    "\<bar>fp_value (fp_literal fmt 27315 100) - 27315 / 100\<bar> \<le> 1 / 2 ^ 16"
    by simp_all
qed

lemma fp_to_float_error:
  assumes fin: "fp_finite x" and bound: "\<bar>fp_value x\<bar> \<le> 2 ^ 127"
  shows "float_finite (fp_to_float x) \<and>
         \<bar>float_value (fp_to_float x) - fp_value x\<bar> \<le> \<bar>fp_value x\<bar> / 2 ^ 24 + 1 / 2 ^ 150"
proof -
  from fin obtain s m e where X: "x = Finite s m e" by (cases x) simp_all
  define y where "y = real m * pow2 e"
  have y0: "0 \<le> y" unfolding y_def using pow2_pos [of e] by simp
  have ay: "\<bar>fp_value x\<bar> = y" using pow2_pos [of e] by (simp add: X y_def abs_mult)
  have vx: "fp_value x = (if s then - 1 else 1) * y" by (simp add: X y_def)
  have y127: "y \<le> 2 ^ 127" using bound by (simp only: ay)
  have c: "precision binary32 = 24" "emin binary32 = - 149" "emax binary32 = 104"
    by (simp_all add: binary32_def)
  have "pow2 (- 149 - 1) = 1 / 2 ^ 150" using pow2_neg [of 150] by simp
  moreover have "pow2 (int 24 + 104) = 2 ^ 128" using pow2_nat [of 128] by simp
  moreover have "y * (1 + 1 / 2 ^ 24) + 1 / 2 ^ 150 < (2::real) ^ 128" using y127 by simp
  ultimately have "real m * pow2 e * (1 + 1 / 2 ^ precision binary32) + pow2 (emin binary32 - 1)
      < pow2 (int (precision binary32) + emax binary32)"
    by (simp only: c y_def [symmetric])
  from fp_round_finite [OF this, of s] obtain q e' where
    r: "fp_round binary32 s m e = Finite s q e'"
    and q: "q \<le> 2 ^ 24" and e': "- 149 \<le> e'"
    and nov: "q = 0 \<or> int (bit_length q) + e' \<le> 128"
    and err: "\<bar>real q * pow2 e' - y\<bar> \<le> y / 2 ^ 24 + pow2 (- 149 - 1)"
    unfolding c y_def by auto
  have tf: "fp_to_float x = encode_float32 s q e'" by (simp add: X fp_to_float_def r)
  from encode_float32_value [OF q e' nov, of s]
  have ff: "float_finite (fp_to_float x)"
    and fv: "float_value (fp_to_float x) = (if s then - 1 else 1) * (real q * pow2 e')"
    by (simp_all only: tf)
  have "float_value (fp_to_float x) - fp_value x = (if s then - 1 else 1) * (real q * pow2 e' - y)"
    by (simp add: fv vx algebra_simps)
  then have "\<bar>float_value (fp_to_float x) - fp_value x\<bar> = \<bar>real q * pow2 e' - y\<bar>"
    by (simp add: abs_mult)
  with err \<open>pow2 (- 149 - 1) = 1 / 2 ^ 150\<close> ff show ?thesis by (simp only: ay)
qed


lemma bit_length_numeral:
  "bit_length 0 = 0"
  "bit_length 1 = 1"
  "bit_length (Suc 0) = Suc 0"
  "bit_length (numeral Num.One) = 1"
  "bit_length (numeral (Num.Bit0 n)) = Suc (bit_length (numeral n))"
  "bit_length (numeral (Num.Bit1 n)) = Suc (bit_length (numeral n))"
proof -
  show "bit_length 0 = 0" by (simp add: bit_length.simps)
  show "bit_length 1 = 1" by (subst bit_length.simps) (simp add: bit_length.simps)
  then show "bit_length (Suc 0) = Suc 0" "bit_length (numeral Num.One) = 1" by simp_all
  have a: "numeral (Num.Bit0 n) div 2 = (numeral n :: nat)" by simp
  show "bit_length (numeral (Num.Bit0 n)) = Suc (bit_length (numeral n))"
    by (subst bit_length.simps) (simp only: a, simp)
  have b: "numeral (Num.Bit1 n) div 2 = (numeral n :: nat)" by simp
  show "bit_length (numeral (Num.Bit1 n)) = Suc (bit_length (numeral n))"
    by (subst bit_length.simps) (simp only: b, simp)
qed

lemmas fp_eval = fp_of_float_def fp_round_def fp_literal_def fp_of_int_def fp_mul_def fp_add_def
  fp_to_float_def encode_float32_def float32_bits_def round_half_even_def
  binary32_def binary64_def float_exponent_def float_fraction_def
  float_sign_def float_significand_def float_scale_def bit_length_numeral Let_def

lemma powers:
  "(2::real) ^ 16 = 65536" "(2::real) ^ 21 = 2097152" "(2::real) ^ 22 = 4194304"
  "(2::real) ^ 24 = 16777216"
  "(2::real) ^ 100 = 1267650600228229401496703205376"
  "(2::real) ^ 120 = 1329227995784915872903807060280344576"
  "(2::real) ^ 127 = 170141183460469231731687303715884105728"
  "(2::real) ^ 128 = 340282366920938463463374607431768211456"
  "(2::real) ^ 150 = 1427247692705959881058285969449495136382746624"
  by simp_all

lemma fahrenheit_chain:
  fixes v vvc vp vx F :: real
  assumes f1: "\<bar>vvc - v * (18 / 10)\<bar> \<le> \<bar>v\<bar> / 2 ^ 24"
    and f2: "\<bar>vp - vvc\<bar> \<le> \<bar>vvc\<bar> / 2 ^ 24 + 1 / 2 ^ 150"
    and f3: "\<bar>vx - (vp + 32)\<bar> \<le> \<bar>vp + 32\<bar> / 2 ^ 24 + 1 / 2 ^ 150"
    and f4: "\<bar>F - vx\<bar> \<le> \<bar>vx\<bar> / 2 ^ 24 + 1 / 2 ^ 150"
    and V: "\<bar>v\<bar> \<le> 2 ^ 100"
  shows "\<bar>F - (v * (18 / 10) + 32)\<bar> \<le> (\<bar>v\<bar> + 9) / 2 ^ 21"
proof -
  define V where "V = \<bar>v\<bar>"
  have V0: "0 \<le> V" by (simp add: V_def)
  have e0: "\<bar>vvc - v * (18 / 10)\<bar> \<le> V / 16777216"
    using f1 unfolding powers V_def .
  have a1: "\<bar>vvc\<bar> \<le> (181 / 100) * V"
    using e0 V0 unfolding V_def by linarith
  have e1: "\<bar>vp - vvc\<bar> \<le> (181 / 100) * V / 16777216 + 1 / 2 ^ 150"
    using f2 a1 unfolding powers by linarith
  define M where "M = \<bar>vp + 32\<bar>"
  have a2: "M \<le> (182 / 100) * V + 33"
    using e1 a1 V0 unfolding powers M_def by linarith
  have f3': "\<bar>vx - (vp + 32)\<bar> \<le> M / 16777216 + 1 / 2 ^ 150"
    using f3 unfolding powers M_def .
  have e2: "\<bar>vx - (vp + 32)\<bar> \<le> (182 / 100) * V / 16777216 + 33 / 16777216 + 1 / 2 ^ 150"
    using f3' a2 unfolding powers by linarith
  have a3: "\<bar>vx\<bar> \<le> (183 / 100) * V + 34"
    using e2 a2 V0 unfolding powers M_def by linarith
  have e3: "\<bar>F - vx\<bar> \<le> (183 / 100) * V / 16777216 + 34 / 16777216 + 1 / 2 ^ 150"
    using f4 a3 unfolding powers by linarith
  have "F - (v * (18 / 10) + 32) =
      (F - vx) + (vx - (vp + 32)) + (vp - vvc) + (vvc - v * (18 / 10))" by simp
  then have "\<bar>F - (v * (18 / 10) + 32)\<bar> \<le>
      \<bar>F - vx\<bar> + \<bar>vx - (vp + 32)\<bar> + \<bar>vp - vvc\<bar> + \<bar>vvc - v * (18 / 10)\<bar>"
    by linarith
  then have "\<bar>F - (v * (18 / 10) + 32)\<bar> \<le> V / 2097152 + 9 / 2097152"
    using e0 e1 e2 e3 V0 unfolding powers by linarith
  then show ?thesis unfolding powers V_def by (simp only: add_divide_distrib)
qed

lemma fahrenheit_ranges:
  fixes v vvc vp vx :: real
  assumes f1: "\<bar>vvc - v * (18 / 10)\<bar> \<le> \<bar>v\<bar> / 2 ^ 24"
    and V: "\<bar>v\<bar> \<le> 2 ^ 100"
  shows "\<bar>vvc\<bar> \<le> 2 ^ 120"
    and "\<bar>vp - vvc\<bar> \<le> \<bar>vvc\<bar> / 2 ^ 24 + 1 / 2 ^ 150 \<Longrightarrow> \<bar>vp + 32\<bar> \<le> 2 ^ 120"
    and "\<bar>vp - vvc\<bar> \<le> \<bar>vvc\<bar> / 2 ^ 24 + 1 / 2 ^ 150 \<Longrightarrow>
         \<bar>vx - (vp + 32)\<bar> \<le> \<bar>vp + 32\<bar> / 2 ^ 24 + 1 / 2 ^ 150 \<Longrightarrow> \<bar>vx\<bar> \<le> 2 ^ 127"
proof -
  have a0: "\<bar>vvc\<bar> \<le> 2 * 2 ^ 100" using f1 V unfolding powers by linarith
  then show a: "\<bar>vvc\<bar> \<le> 2 ^ 120" unfolding powers by linarith
  show b: "\<bar>vp + 32\<bar> \<le> 2 ^ 120" if "\<bar>vp - vvc\<bar> \<le> \<bar>vvc\<bar> / 2 ^ 24 + 1 / 2 ^ 150"
    using a0 that unfolding powers by linarith
  show "\<bar>vx\<bar> \<le> 2 ^ 127" if "\<bar>vp - vvc\<bar> \<le> \<bar>vvc\<bar> / 2 ^ 24 + 1 / 2 ^ 150"
    "\<bar>vx - (vp + 32)\<bar> \<le> \<bar>vp + 32\<bar> / 2 ^ 24 + 1 / 2 ^ 150"
  proof -
    define M where "M = \<bar>vp + 32\<bar>"
    have m: "M \<le> 1329227995784915872903807060280344576"
      using b [OF that(1)] unfolding powers M_def .
    have d: "\<bar>vx - (vp + 32)\<bar> \<le> M / 16777216 + 1 / 2 ^ 150"
      using that(2) unfolding powers M_def .
    then have "\<bar>vx - (vp + 32)\<bar> \<le> 2 * 1329227995784915872903807060280344576"
      using m unfolding powers by linarith
    then show ?thesis using m unfolding powers M_def by linarith
  qed
qed

lemma kelvin_chain:
  fixes v vc vx K :: real
  assumes k1: "\<bar>vc - 27315 / 100\<bar> \<le> 1 / 2 ^ 16"
    and k2: "\<bar>vx - (v + vc)\<bar> \<le> \<bar>v + vc\<bar> / 2 ^ 24 + 1 / 2 ^ 150"
    and k3: "\<bar>K - vx\<bar> \<le> \<bar>vx\<bar> / 2 ^ 24 + 1 / 2 ^ 150"
    and V: "\<bar>v\<bar> \<le> 2 ^ 100"
  shows "\<bar>K - (v + 27315 / 100)\<bar> \<le> (\<bar>v\<bar> + 256) / 2 ^ 22"
proof -
  define V where "V = \<bar>v\<bar>"
  have V0: "0 \<le> V" by (simp add: V_def)
  define M where "M = \<bar>v + vc\<bar>"
  have a1: "M \<le> V + 274"
    using k1 unfolding powers V_def M_def by linarith
  have k2': "\<bar>vx - (v + vc)\<bar> \<le> M / 16777216 + 1 / 2 ^ 150"
    using k2 unfolding powers M_def .
  have e1: "\<bar>vx - (v + vc)\<bar> \<le> V / 16777216 + 274 / 16777216 + 1 / 2 ^ 150"
    using k2' a1 unfolding powers by linarith
  have a2: "\<bar>vx\<bar> \<le> (101 / 100) * V + 275"
    using e1 a1 V0 unfolding powers M_def by linarith
  have e2: "\<bar>K - vx\<bar> \<le> (101 / 100) * V / 16777216 + 275 / 16777216 + 1 / 2 ^ 150"
    using k3 a2 unfolding powers by linarith
  have "K - (v + 27315 / 100) = (K - vx) + (vx - (v + vc)) + (vc - 27315 / 100)" by simp
  then have "\<bar>K - (v + 27315 / 100)\<bar> \<le> \<bar>K - vx\<bar> + \<bar>vx - (v + vc)\<bar> + \<bar>vc - 27315 / 100\<bar>"
    by linarith
  then have "\<bar>K - (v + 27315 / 100)\<bar> \<le> V / 4194304 + 256 / 4194304"
    using e1 e2 k1 V0 unfolding powers by linarith
  then show ?thesis unfolding powers V_def by (simp only: add_divide_distrib)
qed

lemma kelvin_ranges:
  fixes v vc vx :: real
  assumes k1: "\<bar>vc - 27315 / 100\<bar> \<le> 1 / 2 ^ 16" and V: "\<bar>v\<bar> \<le> 2 ^ 100"
  shows "\<bar>v + vc\<bar> \<le> 2 ^ 120"
    and "\<bar>vx - (v + vc)\<bar> \<le> \<bar>v + vc\<bar> / 2 ^ 24 + 1 / 2 ^ 150 \<Longrightarrow> \<bar>vx\<bar> \<le> 2 ^ 127"
proof -
  have a: "\<bar>v + vc\<bar> \<le> 2 * 2 ^ 100" using k1 V unfolding powers by linarith
  then show "\<bar>v + vc\<bar> \<le> 2 ^ 120" unfolding powers by linarith
  show "\<bar>vx\<bar> \<le> 2 ^ 127" if "\<bar>vx - (v + vc)\<bar> \<le> \<bar>v + vc\<bar> / 2 ^ 24 + 1 / 2 ^ 150"
  proof -
    define M where "M = \<bar>v + vc\<bar>"
    have m: "M \<le> 2 * 1267650600228229401496703205376"
      using a unfolding powers M_def .
    have d: "\<bar>vx - (v + vc)\<bar> \<le> M / 16777216 + 1 / 2 ^ 150"
      using that unfolding powers M_def .
    then have "\<bar>vx - (v + vc)\<bar> \<le> 4 * 1267650600228229401496703205376"
      using m unfolding powers by linarith
    then show ?thesis using m unfolding powers M_def by linarith
  qed
qed


lemma to_fahrenheit_error:
  assumes w: "holds_float fmt" and fin: "float_finite t"
    and bound: "\<bar>float_value t\<bar> \<le> 2 ^ 100"
  shows "float_finite (to_fahrenheit fmt t) \<and>
         \<bar>float_value (to_fahrenheit fmt t) - (float_value t * (18 / 10) + 32)\<bar>
            \<le> (\<bar>float_value t\<bar> + 9) / 2 ^ 21"
proof -
  define v where "v = float_value t"
  define a where "a = fp_of_float fmt t"
  define c where "c = fp_literal fmt 18 10"
  define vc where "vc = fp_value c"
  define vvc where "vvc = v * vc"
  have a: "fp_finite a" "fp_value a = v"
    using fp_of_float_value [OF w fin] by (simp_all add: a_def v_def)
  have c: "fp_finite c" "0 \<le> vc" "\<bar>vc - 18 / 10\<bar> \<le> 1 / 2 ^ 24"
    using literal_1_8 [OF w] by (simp_all add: c_def vc_def)
  have V: "\<bar>v\<bar> \<le> 2 ^ 100" using bound by (simp only: v_def)
  have "vvc - v * (18 / 10) = v * (vc - 18 / 10)"
    by (simp add: vvc_def algebra_simps)
  then have "\<bar>vvc - v * (18 / 10)\<bar> = \<bar>v\<bar> * \<bar>vc - 18 / 10\<bar>"
    by (simp only: abs_mult)
  also have "\<dots> \<le> \<bar>v\<bar> * (1 / 2 ^ 24)"
    using c(3) by (intro mult_left_mono) simp_all
  finally have f1: "\<bar>vvc - v * (18 / 10)\<bar> \<le> \<bar>v\<bar> / 2 ^ 24" by simp
  note rng = fahrenheit_ranges [OF f1 V]
  define p where "p = fp_mul fmt a c"
  define vp where "vp = fp_value p"
  have pm: "fp_finite p \<and> \<bar>vp - vvc\<bar> \<le> \<bar>vvc\<bar> / 2 ^ 24 + 1 / 2 ^ 150"
    using fp_mul_error [OF w a(1) c(1)] rng(1)
    unfolding p_def vp_def a(2) vvc_def vc_def by blast
  then have p: "fp_finite p" and f2: "\<bar>vp - vvc\<bar> \<le> \<bar>vvc\<bar> / 2 ^ 24 + 1 / 2 ^ 150"
    by blast+
  define i where "i = fp_of_int fmt 32"
  have i: "fp_finite i" "fp_value i = 32"
    by (simp_all add: i_def fp_of_int_32 [OF w] pow2_def)
  define x where "x = fp_add fmt p i"
  define vx where "vx = fp_value x"
  have xa: "fp_finite x \<and> \<bar>vx - (vp + 32)\<bar> \<le> \<bar>vp + 32\<bar> / 2 ^ 24 + 1 / 2 ^ 150"
    using fp_add_error [OF w p i(1)] rng(2) [OF f2]
    unfolding x_def vx_def i(2) vp_def by blast
  then have x: "fp_finite x" and f3: "\<bar>vx - (vp + 32)\<bar> \<le> \<bar>vp + 32\<bar> / 2 ^ 24 + 1 / 2 ^ 150"
    by blast+
  define F where "F = float_value (fp_to_float x)"
  have r: "float_finite (fp_to_float x) \<and> \<bar>F - vx\<bar> \<le> \<bar>vx\<bar> / 2 ^ 24 + 1 / 2 ^ 150"
    using fp_to_float_error [OF x] rng(3) [OF f2 f3] unfolding F_def vx_def by blast
  then have f4: "\<bar>F - vx\<bar> \<le> \<bar>vx\<bar> / 2 ^ 24 + 1 / 2 ^ 150" by blast
  have tf: "to_fahrenheit fmt t = fp_to_float x"
    by (simp add: to_fahrenheit_def x_def p_def a_def c_def i_def)
  have "\<bar>F - (v * (18 / 10) + 32)\<bar> \<le> (\<bar>v\<bar> + 9) / 2 ^ 21"
    by (rule fahrenheit_chain [OF f1 f2 f3 f4 V])
  then show ?thesis using r unfolding tf F_def v_def by blast
qed

lemma to_kelvin_error:
  assumes w: "holds_float fmt" and fin: "float_finite t"
    and bound: "\<bar>float_value t\<bar> \<le> 2 ^ 100"
  shows "float_finite (to_kelvin fmt t) \<and>
         \<bar>float_value (to_kelvin fmt t) - (float_value t + 27315 / 100)\<bar>
            \<le> (\<bar>float_value t\<bar> + 256) / 2 ^ 22"
proof -
  define v where "v = float_value t"
  define a where "a = fp_of_float fmt t"
  define c where "c = fp_literal fmt 27315 100"
  define vc where "vc = fp_value c"
  have a: "fp_finite a" "fp_value a = v"
    using fp_of_float_value [OF w fin] by (simp_all add: a_def v_def)
  have c: "fp_finite c" and k1: "\<bar>vc - 27315 / 100\<bar> \<le> 1 / 2 ^ 16"
    using literal_273_15 [OF w] by (simp_all add: c_def vc_def)
  have V: "\<bar>v\<bar> \<le> 2 ^ 100" using bound by (simp only: v_def)
  note rng = kelvin_ranges [OF k1 V]
  define x where "x = fp_add fmt a c"
  define vx where "vx = fp_value x"
  have xa: "fp_finite x \<and> \<bar>vx - (v + vc)\<bar> \<le> \<bar>v + vc\<bar> / 2 ^ 24 + 1 / 2 ^ 150"
    using fp_add_error [OF w a(1) c] rng(1)
    unfolding x_def vx_def a(2) vc_def by blast
  then have x: "fp_finite x" and k2: "\<bar>vx - (v + vc)\<bar> \<le> \<bar>v + vc\<bar> / 2 ^ 24 + 1 / 2 ^ 150"
    by blast+
  define K where "K = float_value (fp_to_float x)"
  have r: "float_finite (fp_to_float x) \<and> \<bar>K - vx\<bar> \<le> \<bar>vx\<bar> / 2 ^ 24 + 1 / 2 ^ 150"
    using fp_to_float_error [OF x] rng(2) [OF k2] unfolding K_def vx_def by blast
  then have k3: "\<bar>K - vx\<bar> \<le> \<bar>vx\<bar> / 2 ^ 24 + 1 / 2 ^ 150" by blast
  have tk: "to_kelvin fmt t = fp_to_float x"
    by (simp add: to_kelvin_def x_def a_def c_def)
  have "\<bar>K - (v + 27315 / 100)\<bar> \<le> (\<bar>v\<bar> + 256) / 2 ^ 22"
    by (rule kelvin_chain [OF k1 k2 k3 V])
  then show ?thesis using r unfolding tk K_def v_def by blast
qed

section \<open>The lazy accessors\<close>

lemma ready_command_bytes:
  "(ucast (drop_bit 8 SCD30_GET_READY_STATUS) :: uint8) = 0x02 \<and>
   (ucast (SCD30_GET_READY_STATUS AND 0xFF) :: uint8) = 0x02"
  by (simp add: SCD30_GET_READY_STATUS_def)

lemma dataAvailable_cache:
  "co2 (snd (dataAvailable dev s)) = co2 s \<and>
   temperature (snd (dataAvailable dev s)) = temperature s \<and>
   humidity (snd (dataAvailable dev s)) = humidity s"
  by (simp add: dataAvailable_snd readRegister_cache)

lemma dataAvailable_trace:
  "trace (Wire (snd (dataAvailable dev s))) =
     (let sent = trace (Wire s) @ [Transmission SCD30_I2C_ADDRESS [0x02, 0x02]]
      in if status dev sent \<noteq> 0 then sent else sent @ [Request SCD30_I2C_ADDRESS 2])"
  by (simp add: dataAvailable_snd readRegister_trace ready_command_bytes)

lemma accessors_unfold:
  "getCO2 dev s =
     (let s2 = (if fst (dataAvailable dev s) then snd (readMeasurement dev (snd (dataAvailable dev s)))
                else snd (dataAvailable dev s))
      in (float_to_uint16 (co2 s2), s2))"
  "getHumidity dev s =
     (let s2 = (if fst (dataAvailable dev s) then snd (readMeasurement dev (snd (dataAvailable dev s)))
                else snd (dataAvailable dev s))
      in (humidity s2, s2))"
  "getTemperatureC dev s =
     (let s2 = (if fst (dataAvailable dev s) then snd (readMeasurement dev (snd (dataAvailable dev s)))
                else snd (dataAvailable dev s))
      in (temperature s2, s2))"
  "getTemperatureF fmt dev s =
     (let s2 = (if fst (dataAvailable dev s) then snd (readMeasurement dev (snd (dataAvailable dev s)))
                else snd (dataAvailable dev s))
      in (to_fahrenheit fmt (temperature s2), s2))"
  "getTemperatureK fmt dev s =
     (let s2 = (if fst (dataAvailable dev s) then snd (readMeasurement dev (snd (dataAvailable dev s)))
                else snd (dataAvailable dev s))
      in (to_kelvin fmt (temperature s2), s2))"
  by (simp_all add: getCO2_def getHumidity_def getTemperatureC_def getTemperatureF_def
        getTemperatureK_def to_fahrenheit_def to_kelvin_def Let_def split: prod.splits)

text \<open>
  C3. \<^verbatim>\<open>dataAvailable\<close> says true exactly when the ready-status register reads 1.
  When it says false, each of \<^verbatim>\<open>getCO2\<close>, \<^verbatim>\<open>getHumidity\<close>, \<^verbatim>\<open>getTemperatureC\<close>,
  \<^verbatim>\<open>getTemperatureF\<close> and \<^verbatim>\<open>getTemperatureK\<close> answers from the fields cached before the
  call (converted as that accessor converts), the cache is unchanged, and the only bus
  traffic is the ready-status transaction: no read-measurement command is sent. When it
  says true, the accessor runs \<^verbatim>\<open>readMeasurement\<close> on the state the check left and
  answers from the cache after that read; the bus then shows the ready-status
  transaction followed by the read-measurement command.
\<close>

theorem lazy_accessors:
  "fst (dataAvailable dev s) = (fst (readRegister dev SCD30_GET_READY_STATUS s) = 1)
   \<and> (\<not> fst (dataAvailable dev s) \<longrightarrow>
        getCO2 dev s = (float_to_uint16 (co2 s), snd (dataAvailable dev s)) \<and>
        getHumidity dev s = (humidity s, snd (dataAvailable dev s)) \<and>
        getTemperatureC dev s = (temperature s, snd (dataAvailable dev s)) \<and>
        getTemperatureF fmt dev s =
          (to_fahrenheit fmt (temperature s),
           snd (dataAvailable dev s)) \<and>
        getTemperatureK fmt dev s =
          (to_kelvin fmt (temperature s),
           snd (dataAvailable dev s)) \<and>
        co2 (snd (dataAvailable dev s)) = co2 s \<and>
        temperature (snd (dataAvailable dev s)) = temperature s \<and>
        humidity (snd (dataAvailable dev s)) = humidity s \<and>
        trace (Wire (snd (dataAvailable dev s))) =
          trace (Wire s) @
            (if status dev (trace (Wire s) @ [Transmission SCD30_I2C_ADDRESS [0x02, 0x02]]) \<noteq> 0
             then [Transmission SCD30_I2C_ADDRESS [0x02, 0x02]]
             else [Transmission SCD30_I2C_ADDRESS [0x02, 0x02], Request SCD30_I2C_ADDRESS 2]))
   \<and> (fst (dataAvailable dev s) \<longrightarrow>
        (let s2 = snd (readMeasurement dev (snd (dataAvailable dev s)))
         in getCO2 dev s = (float_to_uint16 (co2 s2), s2) \<and>
            getHumidity dev s = (humidity s2, s2) \<and>
            getTemperatureC dev s = (temperature s2, s2) \<and>
            getTemperatureF fmt dev s =
              (to_fahrenheit fmt (temperature s2),
               s2) \<and>
            getTemperatureK fmt dev s =
              (to_kelvin fmt (temperature s2), s2) \<and>
            trace (Wire s2) =
              trace (Wire s) @
                [Transmission SCD30_I2C_ADDRESS [0x02, 0x02], Request SCD30_I2C_ADDRESS 2,
                 Transmission SCD30_I2C_ADDRESS [0x03, 0x00]] @
                (if status dev (trace (Wire s) @
                      [Transmission SCD30_I2C_ADDRESS [0x02, 0x02], Request SCD30_I2C_ADDRESS 2,
                       Transmission SCD30_I2C_ADDRESS [0x03, 0x00]]) \<noteq> 0
                 then [] else [Request SCD30_I2C_ADDRESS 18])))"
proof -
  have a: "fst (dataAvailable dev s) = (fst (readRegister dev SCD30_GET_READY_STATUS s) = 1)"
    by (rule dataAvailable_fst)
  have b: "\<not> fst (dataAvailable dev s) \<longrightarrow>
        getCO2 dev s = (float_to_uint16 (co2 s), snd (dataAvailable dev s)) \<and>
        getHumidity dev s = (humidity s, snd (dataAvailable dev s)) \<and>
        getTemperatureC dev s = (temperature s, snd (dataAvailable dev s)) \<and>
        getTemperatureF fmt dev s =
          (to_fahrenheit fmt (temperature s),
           snd (dataAvailable dev s)) \<and>
        getTemperatureK fmt dev s =
          (to_kelvin fmt (temperature s),
           snd (dataAvailable dev s))"
    by (simp add: accessors_unfold dataAvailable_cache)
  have c: "co2 (snd (dataAvailable dev s)) = co2 s \<and>
        temperature (snd (dataAvailable dev s)) = temperature s \<and>
        humidity (snd (dataAvailable dev s)) = humidity s"
    by (rule dataAvailable_cache)
  have d: "trace (Wire (snd (dataAvailable dev s))) =
          trace (Wire s) @
            (if status dev (trace (Wire s) @ [Transmission SCD30_I2C_ADDRESS [0x02, 0x02]]) \<noteq> 0
             then [Transmission SCD30_I2C_ADDRESS [0x02, 0x02]]
             else [Transmission SCD30_I2C_ADDRESS [0x02, 0x02], Request SCD30_I2C_ADDRESS 2])"
    by (simp add: dataAvailable_trace Let_def)
  have ready: "fst (dataAvailable dev s) \<Longrightarrow>
      status dev (trace (Wire s) @ [Transmission SCD30_I2C_ADDRESS [0x02, 0x02]]) = 0"
    by (auto simp add: dataAvailable_fst readRegister_value ready_command_bytes Let_def
          split: if_splits)
  have e: "fst (dataAvailable dev s) \<longrightarrow>
        (let s2 = snd (readMeasurement dev (snd (dataAvailable dev s)))
         in getCO2 dev s = (float_to_uint16 (co2 s2), s2) \<and>
            getHumidity dev s = (humidity s2, s2) \<and>
            getTemperatureC dev s = (temperature s2, s2) \<and>
            getTemperatureF fmt dev s =
              (to_fahrenheit fmt (temperature s2),
               s2) \<and>
            getTemperatureK fmt dev s =
              (to_kelvin fmt (temperature s2), s2) \<and>
            trace (Wire s2) =
              trace (Wire s) @
                [Transmission SCD30_I2C_ADDRESS [0x02, 0x02], Request SCD30_I2C_ADDRESS 2,
                 Transmission SCD30_I2C_ADDRESS [0x03, 0x00]] @
                (if status dev (trace (Wire s) @
                      [Transmission SCD30_I2C_ADDRESS [0x02, 0x02], Request SCD30_I2C_ADDRESS 2,
                       Transmission SCD30_I2C_ADDRESS [0x03, 0x00]]) \<noteq> 0
                 then [] else [Request SCD30_I2C_ADDRESS 18]))"
    using ready
    by (simp add: accessors_unfold readMeasurement_trace dataAvailable_trace Let_def)
  from a b c d e show ?thesis by blast
qed

lemma silent_not_ready: "fst (dataAvailable silent_device cached_system) = False"
  by (simp add: dataAvailable_fst readRegister_value silent_device_def Let_def)

lemma measuring_ready: "fst (dataAvailable measuring_device cached_system) = True"
  by (simp add: dataAvailable_fst readRegister_value measuring_device_def Let_def)

lemma cached_values:
  "float_value 0x43E14000 = 901 / 2" "float_value 0xC1200000 = - 10" "float_value 0x42480000 = 50"
  "float_to_uint16 0x43E14000 = Some 450" "float_to_uint16 0x43E10000 = Some 450"
  by (simp_all add: float_to_uint16_def truncate_real_def float_finite_def float_value_def
        float_sign_def float_scale_def float_exponent_def float_significand_def float_fraction_def)

lemma conversions_at_minus_10:
  "to_fahrenheit binary64 0xC1200000 = 0x41600000" "to_kelvin binary64 0xC1200000 = 0x43839333"
  "to_fahrenheit binary32 0xC1200000 = 0x41600000" "to_kelvin binary32 0xC1200000 = 0x43839333"
  by (simp_all add: to_fahrenheit_def to_kelvin_def fp_eval)

lemma measuring_refresh:
  "co2 (snd (readMeasurement measuring_device (snd (dataAvailable measuring_device cached_system)))) = 0x43E10000"
  "temperature (snd (readMeasurement measuring_device (snd (dataAvailable measuring_device cached_system)))) = 0xC1200000"
  "humidity (snd (readMeasurement measuring_device (snd (dataAvailable measuring_device cached_system)))) = 0x42480000"
proof -
  let ?s1 = "snd (dataAvailable measuring_device cached_system)"
  have st: "status measuring_device
      (trace (Wire ?s1) @ [Transmission SCD30_I2C_ADDRESS [0x03, 0x00]]) = 0"
    by (simp add: measuring_device_def)
  have rp: "reply measuring_device (trace (Wire ?s1) @
           [Transmission SCD30_I2C_ADDRESS [0x03, 0x00], Request SCD30_I2C_ADDRESS 18]) =
         [0x43, 0xE1, 0xD5, 0x00, 0x00, 0x81, 0xC1, 0x20, 0x59, 0x00, 0x00, 0x81,
          0x42, 0x48, 0x55, 0x00, 0x00, 0x81]"
    by (simp add: measuring_device_def)
  show "co2 (snd (readMeasurement measuring_device ?s1)) = 0x43E10000"
    "temperature (snd (readMeasurement measuring_device ?s1)) = 0xC1200000"
    "humidity (snd (readMeasurement measuring_device ?s1)) = 0x42480000"
    by (simp_all add: readMeasurement_frame [OF st rp])
qed

theorem lazy_accessors_witness:
  "fst (dataAvailable silent_device cached_system) = False
   \<and> fst (getCO2 silent_device cached_system) = Some 450
   \<and> fst (getHumidity silent_device cached_system) = 0x42480000
   \<and> fst (getTemperatureC silent_device cached_system) = 0xC1200000
   \<and> fst (getTemperatureF binary64 silent_device cached_system) = 0x41600000
   \<and> fst (getTemperatureK binary64 silent_device cached_system) = 0x43839333
   \<and> trace (Wire (snd (getCO2 silent_device cached_system))) =
        [Transmission 0x61 [0x02, 0x02], Request 0x61 2]
   \<and> fst (dataAvailable measuring_device cached_system) = True
   \<and> fst (getCO2 measuring_device cached_system) = Some 450
   \<and> fst (getHumidity measuring_device cached_system) = 0x42480000
   \<and> fst (getTemperatureC measuring_device cached_system) = 0xC1200000
   \<and> trace (Wire (snd (getCO2 measuring_device cached_system))) =
        [Transmission 0x61 [0x02, 0x02], Request 0x61 2,
         Transmission 0x61 [0x03, 0x00], Request 0x61 18]"
proof -
  have n: "\<not> fst (dataAvailable silent_device cached_system)"
    by (simp add: silent_not_ready)
  have y: "fst (dataAvailable measuring_device cached_system)"
    by (simp add: measuring_ready)
  have c: "co2 cached_system = 0x43E14000" "temperature cached_system = 0xC1200000"
    "humidity cached_system = 0x42480000" "trace (Wire cached_system) = []"
    by (simp_all add: cached_system_def initial_system_def)
  have st: "status silent_device tr = 0" "status measuring_device tr = 0" for tr
    by (simp_all add: silent_device_def measuring_device_def)
  show ?thesis
    using lazy_accessors [of silent_device cached_system binary64]
          lazy_accessors [of measuring_device cached_system binary64]
    by (simp add: n y c st cached_values measuring_refresh conversions_at_minus_10 Let_def
          SCD30_I2C_ADDRESS_def)
qed

section \<open>The unit conversions\<close>

lemma float_values_at_minus_10:
  "float_value 0xC1200000 = - 10" "float_finite 0xC1200000"
  "float_value 0x41600000 = 14" "float_value 0x43839333 = 8622899 / 32768"
  by (simp_all add: float_value_def float_finite_def float_sign_def float_scale_def
        float_exponent_def float_significand_def float_fraction_def)

lemma holds_float_binary: "holds_float binary32" "holds_float binary64"
  by (simp_all add: holds_float_def binary32_def binary64_def)

text \<open>
  C8. In every state, negative temperatures included, \<^verbatim>\<open>getTemperatureF\<close> returns
  \<^verbatim>\<open>temperature * 1.8 + 32\<close> and \<^verbatim>\<open>getTemperatureK\<close> returns \<^verbatim>\<open>temperature + 273.15\<close>,
  computed at the call on the Celsius value that \<^verbatim>\<open>getTemperatureC\<close> returns from the
  same state and device; all three leave the same state behind, so nothing converted is
  kept, and without new data the value converted is the one cached before the call. The
  result is a \<^verbatim>\<open>float\<close>, so it is the product and sum as floating-point arithmetic
  rounds them: for every \<^verbatim>\<open>double\<close> format that holds the \<^verbatim>\<open>float\<close> values and every
  finite Celsius value \<open>c\<close> of magnitude up to \<open>2^100\<close>, the Fahrenheit result is finite
  and within \<open>(|c| + 9) / 2^21\<close> of \<open>c * 1.8 + 32\<close>, and the Kelvin result is finite and
  within \<open>(|c| + 256) / 2^22\<close> of \<open>c + 273.15\<close>.
\<close>

theorem temperature_conversions:
  "getTemperatureF fmt dev s =
     (to_fahrenheit fmt (fst (getTemperatureC dev s)), snd (getTemperatureC dev s))
   \<and> getTemperatureK fmt dev s =
     (to_kelvin fmt (fst (getTemperatureC dev s)), snd (getTemperatureC dev s))
   \<and> (\<not> fst (dataAvailable dev s) \<longrightarrow>
        fst (getTemperatureC dev s) = temperature s \<and>
        fst (getTemperatureF fmt dev s) = to_fahrenheit fmt (temperature s) \<and>
        fst (getTemperatureK fmt dev s) = to_kelvin fmt (temperature s))
   \<and> (holds_float fmt \<and> float_finite (fst (getTemperatureC dev s)) \<and>
        \<bar>float_value (fst (getTemperatureC dev s))\<bar> \<le> 2 ^ 100 \<longrightarrow>
        float_finite (fst (getTemperatureF fmt dev s)) \<and>
        \<bar>float_value (fst (getTemperatureF fmt dev s)) -
           (float_value (fst (getTemperatureC dev s)) * 1.8 + 32)\<bar>
          \<le> (\<bar>float_value (fst (getTemperatureC dev s))\<bar> + 9) / 2 ^ 21 \<and>
        float_finite (fst (getTemperatureK fmt dev s)) \<and>
        \<bar>float_value (fst (getTemperatureK fmt dev s)) -
           (float_value (fst (getTemperatureC dev s)) + 273.15)\<bar>
          \<le> (\<bar>float_value (fst (getTemperatureC dev s))\<bar> + 256) / 2 ^ 22)"
proof -
  let ?s2 = "if fst (dataAvailable dev s)
             then snd (readMeasurement dev (snd (dataAvailable dev s)))
             else snd (dataAvailable dev s)"
  let ?c = "fst (getTemperatureC dev s)"
  have celsius: "getTemperatureC dev s = (temperature ?s2, ?s2)"
    by (simp add: accessors_unfold Let_def)
  have fahrenheit: "getTemperatureF fmt dev s = (to_fahrenheit fmt (temperature ?s2), ?s2)"
    by (simp add: accessors_unfold Let_def)
  have kelvin: "getTemperatureK fmt dev s = (to_kelvin fmt (temperature ?s2), ?s2)"
    by (simp add: accessors_unfold Let_def)
  have same: "getTemperatureF fmt dev s = (to_fahrenheit fmt ?c, snd (getTemperatureC dev s))"
    "getTemperatureK fmt dev s = (to_kelvin fmt ?c, snd (getTemperatureC dev s))"
    by (simp_all only: celsius fahrenheit kelvin fst_conv snd_conv)
  have stale: "\<not> fst (dataAvailable dev s) \<longrightarrow>
        ?c = temperature s \<and>
        fst (getTemperatureF fmt dev s) = to_fahrenheit fmt (temperature s) \<and>
        fst (getTemperatureK fmt dev s) = to_kelvin fmt (temperature s)"
    by (simp add: celsius fahrenheit kelvin dataAvailable_cache)
  have accurate: "holds_float fmt \<and> float_finite ?c \<and> \<bar>float_value ?c\<bar> \<le> 2 ^ 100 \<longrightarrow>
        float_finite (fst (getTemperatureF fmt dev s)) \<and>
        \<bar>float_value (fst (getTemperatureF fmt dev s)) - (float_value ?c * 1.8 + 32)\<bar>
          \<le> (\<bar>float_value ?c\<bar> + 9) / 2 ^ 21 \<and>
        float_finite (fst (getTemperatureK fmt dev s)) \<and>
        \<bar>float_value (fst (getTemperatureK fmt dev s)) - (float_value ?c + 273.15)\<bar>
          \<le> (\<bar>float_value ?c\<bar> + 256) / 2 ^ 22"
  proof
    assume h: "holds_float fmt \<and> float_finite ?c \<and> \<bar>float_value ?c\<bar> \<le> 2 ^ 100"
    then have w: "holds_float fmt" and fin: "float_finite ?c"
      and bound: "\<bar>float_value ?c\<bar> \<le> 2 ^ 100" by blast+
    have f: "float_finite (to_fahrenheit fmt ?c) \<and>
        \<bar>float_value (to_fahrenheit fmt ?c) - (float_value ?c * (18 / 10) + 32)\<bar>
          \<le> (\<bar>float_value ?c\<bar> + 9) / 2 ^ 21"
      by (rule to_fahrenheit_error [OF w fin bound])
    have k: "float_finite (to_kelvin fmt ?c) \<and>
        \<bar>float_value (to_kelvin fmt ?c) - (float_value ?c + 27315 / 100)\<bar>
          \<le> (\<bar>float_value ?c\<bar> + 256) / 2 ^ 22"
      by (rule to_kelvin_error [OF w fin bound])
    have d: "(273.15 :: real) = 27315 / 100" by simp
    show "float_finite (fst (getTemperatureF fmt dev s)) \<and>
        \<bar>float_value (fst (getTemperatureF fmt dev s)) - (float_value ?c * 1.8 + 32)\<bar>
          \<le> (\<bar>float_value ?c\<bar> + 9) / 2 ^ 21 \<and>
        float_finite (fst (getTemperatureK fmt dev s)) \<and>
        \<bar>float_value (fst (getTemperatureK fmt dev s)) - (float_value ?c + 273.15)\<bar>
          \<le> (\<bar>float_value ?c\<bar> + 256) / 2 ^ 22"
      using f k unfolding same fst_conv d by blast
  qed
  from same stale accurate show ?thesis by blast
qed

theorem temperature_conversions_witness:
  "holds_float binary64 \<and> holds_float binary32
   \<and> fst (getTemperatureC silent_device cached_system) = 0xC1200000
   \<and> float_finite 0xC1200000 \<and> float_value 0xC1200000 = - 10
   \<and> fst (getTemperatureF binary64 silent_device cached_system) = 0x41600000
   \<and> fst (getTemperatureF binary32 silent_device cached_system) = 0x41600000
   \<and> float_value 0x41600000 = 14
   \<and> fst (getTemperatureK binary64 silent_device cached_system) = 0x43839333
   \<and> fst (getTemperatureK binary32 silent_device cached_system) = 0x43839333
   \<and> float_value 0x43839333 = 8622899 / 32768
   \<and> \<bar>8622899 / 32768 - (- 10 + 273.15 :: real)\<bar> \<le> (10 + 256) / 2 ^ 22
   \<and> snd (getTemperatureF binary64 silent_device cached_system) =
       snd (getTemperatureC silent_device cached_system)
   \<and> snd (getTemperatureK binary64 silent_device cached_system) =
       snd (getTemperatureC silent_device cached_system)"
proof -
  have n: "\<not> fst (dataAvailable silent_device cached_system)"
    by (simp add: silent_not_ready)
  have t: "temperature cached_system = 0xC1200000"
    by (simp add: cached_system_def)
  show ?thesis
    using temperature_conversions [of binary64 silent_device cached_system]
          temperature_conversions [of binary32 silent_device cached_system]
    by (simp add: n t float_values_at_minus_10 holds_float_binary conversions_at_minus_10)
qed

section \<open>The conversion of the CO2 value\<close>

lemma truncate_real_nonneg: "0 \<le> x \<Longrightarrow> truncate_real x = \<lfloor>x\<rfloor>"
  by (simp add: truncate_real_def)

lemma float_to_uint16_defined:
  assumes "float_to_uint16 f = Some r"
  shows "float_finite f" and "uint r = truncate_real (float_value f)"
proof -
  show fin: "float_finite f"
    using assms by (simp add: float_to_uint16_def split: if_splits)
  from assms have rng: "0 \<le> truncate_real (float_value f)" "truncate_real (float_value f) < 65536"
    and r: "r = word_of_int (truncate_real (float_value f))"
    by (auto simp add: float_to_uint16_def Let_def split: if_splits)
  have "uint (word_of_int (truncate_real (float_value f)) :: uint16) =
      truncate_real (float_value f)"
    using rng by (simp add: uint_word_of_int take_bit_eq_mod)
  with r show "uint r = truncate_real (float_value f)" by simp
qed

lemma float_to_uint16_floor:
  assumes fin: "float_finite f" and lo: "0 \<le> float_value f" and hi: "float_value f < 65536"
  shows "\<exists>r. float_to_uint16 f = Some r \<and> uint r = \<lfloor>float_value f\<rfloor> \<and>
           real_of_int (uint r) \<le> float_value f \<and> float_value f < real_of_int (uint r) + 1"
proof -
  have rng: "0 \<le> \<lfloor>float_value f\<rfloor>" "\<lfloor>float_value f\<rfloor> < 65536"
    using lo hi by (simp_all add: floor_less_iff)
  then have some: "float_to_uint16 f = Some (word_of_int \<lfloor>float_value f\<rfloor>)"
    using fin lo by (simp add: float_to_uint16_def truncate_real_nonneg Let_def)
  have u: "uint (word_of_int \<lfloor>float_value f\<rfloor> :: uint16) = \<lfloor>float_value f\<rfloor>"
    using rng by (simp add: uint_word_of_int take_bit_eq_mod)
  show ?thesis
  proof (intro exI conjI)
    show "float_to_uint16 f = Some (word_of_int \<lfloor>float_value f\<rfloor>)" by (rule some)
    show "uint (word_of_int \<lfloor>float_value f\<rfloor> :: uint16) = \<lfloor>float_value f\<rfloor>" by (rule u)
    show "real_of_int (uint (word_of_int \<lfloor>float_value f\<rfloor> :: uint16)) \<le> float_value f"
      unfolding u by linarith
    show "float_value f < real_of_int (uint (word_of_int \<lfloor>float_value f\<rfloor> :: uint16)) + 1"
      unfolding u by linarith
  qed
qed

lemma ready_status_acknowledged:
  "fst (dataAvailable dev s) \<Longrightarrow>
   status dev (trace (Wire s) @ [Transmission SCD30_I2C_ADDRESS [0x02, 0x02]]) = 0"
  by (auto simp add: dataAvailable_fst readRegister_value ready_command_bytes Let_def
        split: if_splits)

text \<open>
  C10. \<^verbatim>\<open>getCO2\<close> returns a \<^verbatim>\<open>uint16_t\<close>: the \<^verbatim>\<open>float\<close> in the cache converted by
  discarding its fractional part. Without new data that is the value cached before the
  call; with new data it is the value \<^verbatim>\<open>readMeasurement\<close> stores, which for an
  acknowledged command and a frame of 18 bytes is the one assembled from the bytes at
  positions 0, 1, 3 and 4. For a finite value from 0 up to but excluding 65536 the result
  \<open>r\<close> is its floor, so the value lies in \<open>[r, r + 1)\<close>, and a cached 450.5 comes out as
  450; whenever the conversion is defined the result is the value truncated towards
  zero. \<^verbatim>\<open>getHumidity\<close> and \<^verbatim>\<open>getTemperatureC\<close> return the bits of their cached field
  as they are.
\<close>

theorem getCO2_truncates:
  "(\<not> fst (dataAvailable dev s) \<longrightarrow>
      getCO2 dev s = (float_to_uint16 (co2 s), snd (dataAvailable dev s)) \<and>
      getHumidity dev s = (humidity s, snd (dataAvailable dev s)) \<and>
      getTemperatureC dev s = (temperature s, snd (dataAvailable dev s)) \<and>
      co2 (snd (dataAvailable dev s)) = co2 s)
   \<and> (fst (dataAvailable dev s) \<longrightarrow>
      (let s2 = snd (readMeasurement dev (snd (dataAvailable dev s)))
       in getCO2 dev s = (float_to_uint16 (co2 s2), s2) \<and>
          getHumidity dev s = (humidity s2, s2) \<and>
          getTemperatureC dev s = (temperature s2, s2)))
   \<and> (fst (dataAvailable dev s) \<and>
        status dev (trace (Wire s) @
          [Transmission SCD30_I2C_ADDRESS [0x02, 0x02], Request SCD30_I2C_ADDRESS 2,
           Transmission SCD30_I2C_ADDRESS [0x03, 0x00]]) = 0 \<and>
        reply dev (trace (Wire s) @
          [Transmission SCD30_I2C_ADDRESS [0x02, 0x02], Request SCD30_I2C_ADDRESS 2,
           Transmission SCD30_I2C_ADDRESS [0x03, 0x00], Request SCD30_I2C_ADDRESS 18]) =
          [b0, b1, b2, b3, b4, b5, b6, b7, b8, b9, b10, b11, b12, b13, b14, b15, b16, b17] \<longrightarrow>
      fst (getCO2 dev s) =
        float_to_uint16
          (push_bit 24 (ucast b0) OR push_bit 16 (ucast b1) OR push_bit 8 (ucast b3) OR ucast b4) \<and>
      fst (getHumidity dev s) =
        push_bit 24 (ucast b12) OR push_bit 16 (ucast b13) OR push_bit 8 (ucast b15) OR ucast b16)
   \<and> (float_finite f \<and> 0 \<le> float_value f \<and> float_value f < 65536 \<longrightarrow>
        (\<exists>r. float_to_uint16 f = Some r \<and> uint r = \<lfloor>float_value f\<rfloor> \<and>
           real_of_int (uint r) \<le> float_value f \<and> float_value f < real_of_int (uint r) + 1))
   \<and> (float_to_uint16 f = Some r \<longrightarrow>
        float_finite f \<and> uint r = truncate_real (float_value f))
   \<and> float_value 0x43E14000 = 901 / 2
   \<and> float_to_uint16 0x43E14000 = Some 450"
proof -
  let ?s1 = "snd (dataAvailable dev s)"
  have stale: "\<not> fst (dataAvailable dev s) \<longrightarrow>
      getCO2 dev s = (float_to_uint16 (co2 s), ?s1) \<and>
      getHumidity dev s = (humidity s, ?s1) \<and>
      getTemperatureC dev s = (temperature s, ?s1) \<and>
      co2 ?s1 = co2 s"
    by (simp add: accessors_unfold dataAvailable_cache)
  have fresh: "fst (dataAvailable dev s) \<longrightarrow>
      (let s2 = snd (readMeasurement dev ?s1)
       in getCO2 dev s = (float_to_uint16 (co2 s2), s2) \<and>
          getHumidity dev s = (humidity s2, s2) \<and>
          getTemperatureC dev s = (temperature s2, s2))"
    by (simp add: accessors_unfold Let_def)
  have frame: "fst (dataAvailable dev s) \<and>
        status dev (trace (Wire s) @
          [Transmission SCD30_I2C_ADDRESS [0x02, 0x02], Request SCD30_I2C_ADDRESS 2,
           Transmission SCD30_I2C_ADDRESS [0x03, 0x00]]) = 0 \<and>
        reply dev (trace (Wire s) @
          [Transmission SCD30_I2C_ADDRESS [0x02, 0x02], Request SCD30_I2C_ADDRESS 2,
           Transmission SCD30_I2C_ADDRESS [0x03, 0x00], Request SCD30_I2C_ADDRESS 18]) =
          [b0, b1, b2, b3, b4, b5, b6, b7, b8, b9, b10, b11, b12, b13, b14, b15, b16, b17] \<longrightarrow>
      fst (getCO2 dev s) =
        float_to_uint16
          (push_bit 24 (ucast b0) OR push_bit 16 (ucast b1) OR push_bit 8 (ucast b3) OR ucast b4) \<and>
      fst (getHumidity dev s) =
        push_bit 24 (ucast b12) OR push_bit 16 (ucast b13) OR push_bit 8 (ucast b15) OR ucast b16"
  proof
    assume h: "fst (dataAvailable dev s) \<and>
        status dev (trace (Wire s) @
          [Transmission SCD30_I2C_ADDRESS [0x02, 0x02], Request SCD30_I2C_ADDRESS 2,
           Transmission SCD30_I2C_ADDRESS [0x03, 0x00]]) = 0 \<and>
        reply dev (trace (Wire s) @
          [Transmission SCD30_I2C_ADDRESS [0x02, 0x02], Request SCD30_I2C_ADDRESS 2,
           Transmission SCD30_I2C_ADDRESS [0x03, 0x00], Request SCD30_I2C_ADDRESS 18]) =
          [b0, b1, b2, b3, b4, b5, b6, b7, b8, b9, b10, b11, b12, b13, b14, b15, b16, b17]"
    then have ready: "fst (dataAvailable dev s)" by blast
    have tr: "trace (Wire ?s1) =
        trace (Wire s) @
          [Transmission SCD30_I2C_ADDRESS [0x02, 0x02], Request SCD30_I2C_ADDRESS 2]"
      using ready_status_acknowledged [OF ready] by (simp add: dataAvailable_trace Let_def)
    have st: "status dev (trace (Wire ?s1) @ [Transmission SCD30_I2C_ADDRESS [0x03, 0x00]]) = 0"
      using h by (simp add: tr)
    have rp: "reply dev (trace (Wire ?s1) @
           [Transmission SCD30_I2C_ADDRESS [0x03, 0x00], Request SCD30_I2C_ADDRESS 18]) =
         [b0, b1, b2, b3, b4, b5, b6, b7, b8, b9, b10, b11, b12, b13, b14, b15, b16, b17]"
      using h by (simp add: tr)
    show "fst (getCO2 dev s) =
        float_to_uint16
          (push_bit 24 (ucast b0) OR push_bit 16 (ucast b1) OR push_bit 8 (ucast b3) OR ucast b4) \<and>
      fst (getHumidity dev s) =
        push_bit 24 (ucast b12) OR push_bit 16 (ucast b13) OR push_bit 8 (ucast b15) OR ucast b16"
      using ready by (simp add: accessors_unfold Let_def readMeasurement_frame [OF st rp])
  qed
  have floor: "float_finite f \<and> 0 \<le> float_value f \<and> float_value f < 65536 \<longrightarrow>
        (\<exists>r. float_to_uint16 f = Some r \<and> uint r = \<lfloor>float_value f\<rfloor> \<and>
           real_of_int (uint r) \<le> float_value f \<and> float_value f < real_of_int (uint r) + 1)"
    using float_to_uint16_floor [of f] by blast
  have defined: "float_to_uint16 f = Some r \<longrightarrow>
        float_finite f \<and> uint r = truncate_real (float_value f)"
    using float_to_uint16_defined [of f r] by blast
  from stale fresh frame floor defined cached_values(1,4) show ?thesis by blast
qed

theorem getCO2_truncates_witness:
  "fst (dataAvailable silent_device cached_system) = False
   \<and> co2 cached_system = 0x43E14000
   \<and> float_value 0x43E14000 = 901 / 2
   \<and> fst (getCO2 silent_device cached_system) = Some 450
   \<and> fst (getHumidity silent_device cached_system) = 0x42480000
   \<and> fst (dataAvailable measuring_device cached_system) = True
   \<and> fst (getCO2 measuring_device cached_system) = float_to_uint16 0x43E10000
   \<and> float_to_uint16 0x43E10000 = Some 450
   \<and> float_finite 0x43E14000
   \<and> uint (450 :: uint16) = \<lfloor>901 / 2 :: real\<rfloor>"
proof -
  have n: "\<not> fst (dataAvailable silent_device cached_system)"
    by (simp add: silent_not_ready)
  have y: "fst (dataAvailable measuring_device cached_system)"
    by (simp add: measuring_ready)
  have c: "co2 cached_system = 0x43E14000" "humidity cached_system = 0x42480000"
    "trace (Wire cached_system) = []"
    by (simp_all add: cached_system_def initial_system_def)
  have fin: "float_finite 0x43E14000"
    by (simp add: float_finite_def float_exponent_def)
  have st: "status measuring_device tr = 0" for tr
    by (simp add: measuring_device_def)
  have rp: "reply measuring_device
      [Transmission SCD30_I2C_ADDRESS [0x02, 0x02], Request SCD30_I2C_ADDRESS 2,
       Transmission SCD30_I2C_ADDRESS [0x03, 0x00], Request SCD30_I2C_ADDRESS 18] =
      [0x43, 0xE1, 0xD5, 0x00, 0x00, 0x81, 0xC1, 0x20, 0x59, 0x00, 0x00, 0x81,
       0x42, 0x48, 0x55, 0x00, 0x00, 0x81]"
    by (simp add: measuring_device_def)
  show ?thesis
    using getCO2_truncates [of silent_device cached_system
            0 0 0 0 0 0 0 0 0 0 0 0 0 0 0 0 0 0 "0x43E14000" 450]
          getCO2_truncates [of measuring_device cached_system
            "0x43" "0xE1" "0xD5" "0x00" "0x00" "0x81" "0xC1" "0x20" "0x59" "0x00" "0x00" "0x81"
            "0x42" "0x48" "0x55" "0x00" "0x00" "0x81" "0x43E14000" 450]
    by (simp add: n y c fin st rp cached_values)
qed

section \<open>A measurement read without response bytes\<close>

lemma starved_ready: "fst (dataAvailable starved_device cached_system) = True"
  by (simp add: dataAvailable_fst readRegister_value starved_device_def Let_def)

text \<open>
  C1. An acknowledged read-measurement command whose request brings no byte should
  return true and leave the cached measurement as it was. The code returns true, but it
  does not keep the cache: the guard on \<^verbatim>\<open>Wire.available()\<close> skips the loop over the frame
  while the three \<^verbatim>\<open>memcpy\<close> calls stand after the guard and copy the temporaries, still
  0. With 450.5 ppm, -10.0 degrees and 50.0 percent in the cache, a device that
  acknowledges and supplies nothing leaves all three fields 0; and when such a device
  has reported data ready, \<^verbatim>\<open>getHumidity\<close> returns 0.0 where 50.0 was saved.
\<close>

theorem readMeasurement_empty_reply_zeroes_cache:
  "status silent_device
     (trace (Wire cached_system) @ [Transmission SCD30_I2C_ADDRESS [0x03, 0x00]]) = 0
   \<and> reply silent_device
     (trace (Wire cached_system) @
        [Transmission SCD30_I2C_ADDRESS [0x03, 0x00], Request SCD30_I2C_ADDRESS 18]) = []
   \<and> fst (readMeasurement silent_device cached_system) = True
   \<and> co2 cached_system = 0x43E14000
   \<and> temperature cached_system = 0xC1200000
   \<and> humidity cached_system = 0x42480000
   \<and> co2 (snd (readMeasurement silent_device cached_system)) = 0
   \<and> temperature (snd (readMeasurement silent_device cached_system)) = 0
   \<and> humidity (snd (readMeasurement silent_device cached_system)) = 0
   \<and> co2 (snd (readMeasurement silent_device cached_system)) \<noteq> co2 cached_system
   \<and> temperature (snd (readMeasurement silent_device cached_system)) \<noteq> temperature cached_system
   \<and> humidity (snd (readMeasurement silent_device cached_system)) \<noteq> humidity cached_system
   \<and> fst (dataAvailable starved_device cached_system) = True
   \<and> fst (getHumidity starved_device cached_system) = 0"
proof -
  have r: "readMeasurement silent_device cached_system =
     (True, cached_system\<lparr>co2 := 0, temperature := 0, humidity := 0,
         Wire := (Wire cached_system)\<lparr>txAddress := SCD30_I2C_ADDRESS, txBuffer := [], rxBuffer := [],
           trace := trace (Wire cached_system) @
             [Transmission SCD30_I2C_ADDRESS [0x03, 0x00], Request SCD30_I2C_ADDRESS 18]\<rparr>\<rparr>)"
    by (rule readMeasurement_empty) (simp_all add: silent_device_def)
  let ?s1 = "snd (dataAvailable starved_device cached_system)"
  have r2: "readMeasurement starved_device ?s1 =
     (True, ?s1\<lparr>co2 := 0, temperature := 0, humidity := 0,
         Wire := (Wire ?s1)\<lparr>txAddress := SCD30_I2C_ADDRESS, txBuffer := [], rxBuffer := [],
           trace := trace (Wire ?s1) @
             [Transmission SCD30_I2C_ADDRESS [0x03, 0x00], Request SCD30_I2C_ADDRESS 18]\<rparr>\<rparr>)"
    by (rule readMeasurement_empty) (simp_all add: starved_device_def)
  have h: "fst (getHumidity starved_device cached_system) = 0"
    by (simp add: accessors_unfold starved_ready r2 Let_def)
  show ?thesis
    by (simp add: r h starved_ready) (simp add: silent_device_def cached_system_def initial_system_def)
qed

end
